theory Spec2Isabelle
  imports Main
begin

section \<open>Reflected values\<close>

text \<open>
  The comparator of \<^verbatim>\<open>deepequal.go\<close> walks two Go values through package
  \<^verbatim>\<open>reflect\<close>.  What it can observe of a value is modelled here: a type
  descriptor, memory read through typed locations, and the flags a
  \<^verbatim>\<open>reflect.Value\<close> carries (addressable, obtained through an unexported
  field).
\<close>

type_synonym uintptr = nat

datatype Kind =
    Invalid | Bool | Int | Int8 | Int16 | Int32 | Int64
  | Uint | Uint8 | Uint16 | Uint32 | Uint64 | Uintptr
  | Float32 | Float64 | Complex64 | Complex128
  | Array | Chan | Func | Interface | Map | Ptr | Slice | String | Struct
  | UnsafePointer

text \<open>
  A struct field as \<^verbatim>\<open>reflect.StructField\<close> describes it: \<open>PkgPath\<close> is empty
  exactly for an exported field, \<open>Anonymous\<close> holds for an embedded field.
\<close>

record StructField =
  Name :: string
  PkgPath :: string
  Anonymous :: bool

text \<open>
  A type descriptor (\<^verbatim>\<open>reflect.Type\<close>).  Go compares descriptors by identity;
  here two descriptors are the same type when all their components agree.
\<close>

record rtype =
  rtype_PkgPath :: string
  rtype_String :: string
  rtype_Kind :: Kind
  rtype_Fields :: "StructField list"

text \<open>A typed location: an address together with the type it is read at.\<close>

type_synonym loc = "uintptr \<times> rtype"

text \<open>
  A floating-point number is given by the bits of its IEEE 754 binary64 representation
  (\<^verbatim>\<open>math.Float64bits\<close>; a \<^verbatim>\<open>float32\<close> is widened, as \<^verbatim>\<open>Value.Float\<close> does).  It is
  not a number when its eleven exponent bits are all set and its 52 fraction bits are not
  all clear, and a zero when all bits but the sign bit are clear.  Go's \<^verbatim>\<open>==\<close> on
  floating-point numbers is not equality of representations: NaN differs from
  everything, itself included, and the two zeros are equal.
\<close>

type_synonym float64 = nat

definition isNaN :: "float64 \<Rightarrow> bool" where
  "isNaN f = (f div 0x10000000000000 mod 0x800 = 0x7FF \<and> f mod 0x10000000000000 \<noteq> 0)"

definition isZero :: "float64 \<Rightarrow> bool" where
  "isZero f = (f mod 0x8000000000000000 = 0)"

definition float_equal :: "float64 \<Rightarrow> float64 \<Rightarrow> bool" where
  "float_equal f g = (\<not> isNaN f \<and> \<not> isNaN g \<and> (f = g \<or> (isZero f \<and> isZero g)))"

text \<open>
  The kinds that reach the \<^verbatim>\<open>default\<close> branch of the comparator hold a scalar: a
  boolean, an integer of any width, a string, an address (a channel or an unsafe
  pointer), a floating-point number, or a complex number with its real and imaginary
  parts.
\<close>

datatype scalar =
    BoolV bool | IntV int | StringV string | AddrV uintptr
  | FloatV float64 | ComplexV float64 float64

text \<open>Go's \<^verbatim>\<open>==\<close> on two scalars of one type; it is also the key equality of maps.\<close>

definition go_equal :: "scalar \<Rightarrow> scalar \<Rightarrow> bool" where
  "go_equal x y =
     (case (x, y) of
        (FloatV f, FloatV g) \<Rightarrow> float_equal f g
      | (ComplexV f f', ComplexV g g') \<Rightarrow> float_equal f g \<and> float_equal f' g'
      | _ \<Rightarrow> x = y)"

text \<open>
  What is stored at a typed location.  Composite values list the locations of their
  parts (the address arithmetic of the Go runtime is taken as given); a slice header
  holds its data pointer (0 for a nil slice) and the locations of its elements; a map
  holds its pointer (0 for a nil map) and its entries, keys by value in iteration order;
  a pointer holds the location it points to (address 0 for nil); an interface holds
  the location of its dynamic value, or nothing when it is nil; a func holds its code
  pointer (0 for nil).
\<close>

datatype data =
    Scalar scalar
  | ArrayD "loc list"
  | SliceD uintptr "loc list"
  | StructD "loc list"
  | PtrD loc
  | IfaceD "loc option"
  | MapD uintptr "(scalar \<times> loc) list"
  | FuncD uintptr

type_synonym memory = "loc \<rightharpoonup> data"

text \<open>
  A \<^verbatim>\<open>reflect.Value\<close>: the zero Value (not valid), or a type, a pointer to the
  data and the flags the comparator depends on: \<^verbatim>\<open>flagAddr\<close>, and the two bits of
  \<^verbatim>\<open>flagRO\<close>, \<^verbatim>\<open>flagStickyRO\<close> (obtained through an unexported field that is not
  embedded) and \<^verbatim>\<open>flagEmbedRO\<close> (obtained through an unexported embedded field).
\<close>

datatype Value =
    ZeroValue
  | Val (v_typ: rtype) (v_ptr: uintptr) (flagAddr: bool) (flagStickyRO: bool)
      (flagEmbedRO: bool)

text \<open>An \<^verbatim>\<open>interface{}\<close> argument: nil, or a dynamic type with its data.\<close>

type_synonym eface = "loc option"

definition ValueOf :: "eface \<Rightarrow> Value" where
  "ValueOf a = (case a of None \<Rightarrow> ZeroValue | Some (p, t) \<Rightarrow> Val t p False False False)"

definition IsValid :: "Value \<Rightarrow> bool" where
  "IsValid v = (v \<noteq> ZeroValue)"

definition Type :: "Value \<Rightarrow> rtype" where
  "Type v = v_typ v"

definition Kind :: "Value \<Rightarrow> Kind" where
  "Kind v = (case v of ZeroValue \<Rightarrow> Invalid | Val t p a r e \<Rightarrow> rtype_Kind t)"

definition CanAddr :: "Value \<Rightarrow> bool" where
  "CanAddr v = (case v of ZeroValue \<Rightarrow> False | Val t p a r e \<Rightarrow> a)"

definition UnsafeAddr :: "Value \<Rightarrow> uintptr" where
  "UnsafeAddr v = v_ptr v"

text \<open>\<^verbatim>\<open>v.flag&flagStickyRO != 0\<close>, \<^verbatim>\<open>v.flag&flagEmbedRO != 0\<close> and \<^verbatim>\<open>v.flag&flagRO != 0\<close>.\<close>

definition stickyRO :: "Value \<Rightarrow> bool" where
  "stickyRO v = (case v of ZeroValue \<Rightarrow> False | Val t p a r e \<Rightarrow> r)"

definition embedRO :: "Value \<Rightarrow> bool" where
  "embedRO v = (case v of ZeroValue \<Rightarrow> False | Val t p a r e \<Rightarrow> e)"

definition isRO :: "Value \<Rightarrow> bool" where
  "isRO v = (stickyRO v \<or> embedRO v)"

definition load :: "memory \<Rightarrow> Value \<Rightarrow> data option" where
  "load h v = (case v of ZeroValue \<Rightarrow> None | Val t p a r e \<Rightarrow> h (p, t))"

text \<open>
  The accessors of \<^verbatim>\<open>reflect.Value\<close> that produce a part of a value, with the flags
  package reflect gives the result: an array element and a struct field are addressable
  when the whole is, a slice element and the target of a pointer always are, the
  dynamic value of an interface and a map element never are.  \<^verbatim>\<open>Index\<close>,
  \<^verbatim>\<open>Elem\<close> of an interface and \<^verbatim>\<open>MapIndex\<close> turn either read-only bit of the whole
  into \<^verbatim>\<open>flagStickyRO\<close> (\<^verbatim>\<open>v.flag.ro()\<close>); \<^verbatim>\<open>Elem\<close> of a pointer keeps both
  bits; \<^verbatim>\<open>Field\<close> keeps \<^verbatim>\<open>flagStickyRO\<close> only, and an unexported field sets
  \<^verbatim>\<open>flagEmbedRO\<close> when it is embedded, \<^verbatim>\<open>flagStickyRO\<close> when it is not.
\<close>

definition Index_array :: "Value \<Rightarrow> loc \<Rightarrow> Value" where
  "Index_array v l = Val (snd l) (fst l) (CanAddr v) (isRO v) False"

definition Index_slice :: "Value \<Rightarrow> loc \<Rightarrow> Value" where
  "Index_slice v l = Val (snd l) (fst l) True (isRO v) False"

definition Field :: "Value \<Rightarrow> StructField \<Rightarrow> loc \<Rightarrow> Value" where
  "Field v f l =
     Val (snd l) (fst l) (CanAddr v)
       (stickyRO v \<or> (PkgPath f \<noteq> [] \<and> \<not> Anonymous f))
       (PkgPath f \<noteq> [] \<and> Anonymous f)"

definition Elem_ptr :: "Value \<Rightarrow> loc \<Rightarrow> Value" where
  "Elem_ptr v l =
     (if fst l = 0 then ZeroValue else Val (snd l) (fst l) True (stickyRO v) (embedRO v))"

definition Elem_iface :: "Value \<Rightarrow> loc \<Rightarrow> Value" where
  "Elem_iface v l = Val (snd l) (fst l) False (isRO v) False"

text \<open>
  \<^verbatim>\<open>v.MapIndex(k)\<close>: the entry is the one whose key is \<^verbatim>\<open>==\<close> to \<open>k\<close>, so that a
  key that is NaN is never found; a missing key gives the zero Value.  The key carries
  the read-only flag of the map it was listed from.
\<close>

definition MapIndex :: "Value \<Rightarrow> (scalar \<times> loc) list \<Rightarrow> scalar \<times> bool \<Rightarrow> Value" where
  "MapIndex v es k =
     (case find (\<lambda>e. go_equal (fst e) (fst k)) es of
        None \<Rightarrow> ZeroValue
      | Some e \<Rightarrow> Val (snd (snd e)) (fst (snd e)) False (isRO v \<or> snd k) False)"

definition MapKeys :: "Value \<Rightarrow> (scalar \<times> loc) list \<Rightarrow> (scalar \<times> bool) list" where
  "MapKeys v es = map (\<lambda>e. (fst e, isRO v)) es"

text \<open>
  The pairs \<^verbatim>\<open>(v1.Index(i), v2.Index(i))\<close> for \<open>i\<close> below the length of the first
  list; an index out of the second list's range has no pair.
\<close>

definition index_pairs :: "'a list \<Rightarrow> 'a list \<Rightarrow> ('a \<times> 'a) option list" where
  "index_pairs xs ys =
     map (\<lambda>i. if i < length ys then Some (xs ! i, ys ! i) else None) [0..<length xs]"

section \<open>Formatting\<close>

text \<open>
  The text package \<^verbatim>\<open>fmt\<close> produces for a value is a parameter of the model:
  \<open>fmt_v\<close> is \<^verbatim>\<open>%v\<close> of a \<^verbatim>\<open>reflect.Value\<close>, \<open>fmt_sharp_v\<close> is \<^verbatim>\<open>%#v\<close> of the
  value's \<^verbatim>\<open>Interface()\<close>, \<open>fmt_sharp_key\<close> is \<^verbatim>\<open>%#v\<close> of a map key.
\<close>

record fmt =
  fmt_v :: "memory \<Rightarrow> Value \<Rightarrow> string"
  fmt_sharp_v :: "memory \<Rightarrow> Value \<Rightarrow> string"
  fmt_sharp_key :: "scalar \<Rightarrow> string"

text \<open>
  Whether the formatting returns is not a parameter.  Package \<^verbatim>\<open>fmt\<close> formats a
  value by recursion on its parts (\<^verbatim>\<open>printValue\<close>) and has no check for cycles: it
  formats the elements of an array or slice, the fields of a struct, the keys and
  elements of a map and the dynamic value of an interface; it follows a pointer only
  when the pointer is the value formatted itself and points to an array, slice, struct or
  map, and writes the address otherwise.  \<open>fmt_parts\<close> gives the parts formatted
  inside the value at a location, \<open>outer\<close> telling whether it is the value formatted
  itself.
\<close>

definition fmt_parts :: "memory \<Rightarrow> bool \<Rightarrow> loc \<Rightarrow> loc list" where
  "fmt_parts h outer l =
     (case h l of
        Some (ArrayD ls) \<Rightarrow> ls
      | Some (SliceD p ls) \<Rightarrow> ls
      | Some (StructD ls) \<Rightarrow> ls
      | Some (MapD p es) \<Rightarrow> map snd es
      | Some (IfaceD (Some l')) \<Rightarrow> [l']
      | Some (PtrD l') \<Rightarrow>
          if outer \<and> fst l' \<noteq> 0 \<and> rtype_Kind (snd l') \<in> {Array, Slice, Struct, Map}
          then [l'] else []
      | _ \<Rightarrow> [])"

text \<open>
  The formatting of the value at a location returns with at most \<open>k\<close> calls of
  \<^verbatim>\<open>printValue\<close> nested in the first.  On a slice or a map that contains itself it
  returns for no \<open>k\<close>.
\<close>

primrec printValue :: "memory \<Rightarrow> nat \<Rightarrow> bool \<Rightarrow> loc \<Rightarrow> bool" where
  "printValue h 0 outer l = (fmt_parts h outer l = [])"
| "printValue h (Suc k) outer l = list_all (printValue h k False) (fmt_parts h outer l)"

text \<open>The zero Value is formatted as \<^verbatim>\<open><invalid reflect.Value>\<close>.\<close>

definition fmt_returns :: "memory \<Rightarrow> nat \<Rightarrow> Value \<Rightarrow> bool" where
  "fmt_returns h k v =
     (case v of ZeroValue \<Rightarrow> True | Val t p a r e \<Rightarrow> printValue h k True (p, t))"

definition newline :: string where
  "newline = [CHR 0x0A]"

section \<open>The comparison state\<close>

record visit =
  a1 :: uintptr
  a2 :: uintptr
  vtyp :: rtype

record deepEqualState =
  visited :: "visit \<rightharpoonup> bool"
  depth :: int
  sub :: bool
  w :: string

text \<open>The prefix \<^verbatim>\<open>println\<close> and \<^verbatim>\<open>printf\<close> share: the label flag, else the indent.\<close>

definition write_prefix :: "deepEqualState \<Rightarrow> deepEqualState" where
  "write_prefix s =
     (if sub s then s\<lparr>sub := False\<rparr>
      else if depth s > 0 then s\<lparr>w := w s @ concat (replicate (nat (depth s)) ''  '')\<rparr>
      else s)"

definition println :: "deepEqualState \<Rightarrow> string \<Rightarrow> deepEqualState" where
  "println s txt = (let s' = write_prefix s in s'\<lparr>w := w s' @ txt @ newline\<rparr>)"

definition printf :: "deepEqualState \<Rightarrow> string \<Rightarrow> deepEqualState" where
  "printf s txt = (let s' = write_prefix s in s'\<lparr>w := w s' @ txt\<rparr>)"

definition incDepth :: "deepEqualState \<Rightarrow> deepEqualState" where
  "incDepth s = s\<lparr>depth := depth s + 1\<rparr>"

definition decDepth :: "deepEqualState \<Rightarrow> deepEqualState" where
  "decDepth s = s\<lparr>depth := depth s - 1\<rparr>"

section \<open>Outcomes\<close>

text \<open>
  A call of the comparator returns a verdict and the state it leaves, or it does not
  return: \<open>PanicInterface\<close> is the panic of \<^verbatim>\<open>Value.Interface\<close> on a value obtained
  through an unexported field; \<open>Fault\<close> is a read the model's memory cannot answer
  (no data at a location, data of another shape than the kind, an index out of range),
  which a Go value never causes; \<open>OutOfFuel\<close> marks a recursion deeper than the
  budget given, of the comparator or of package \<^verbatim>\<open>fmt\<close> formatting a value for the
  trace, so that a comparison that recurses forever has this outcome for every budget.
\<close>

datatype error = PanicInterface | Fault | OutOfFuel

type_synonym outcome = "error + bool \<times> deepEqualState"

text \<open>A loop that returns false at the first false verdict, and true after the last.\<close>

fun all_loop ::
  "('a \<Rightarrow> 's \<Rightarrow> error + bool \<times> 's) \<Rightarrow> 'a list \<Rightarrow> 's \<Rightarrow> error + bool \<times> 's" where
  "all_loop f [] s = Inr (True, s)"
| "all_loop f (x # xs) s =
     (case f x s of
        Inl e \<Rightarrow> Inl e
      | Inr (b, s') \<Rightarrow> if b then all_loop f xs s' else Inr (False, s'))"

section \<open>deepValueEqual\<close>

definition hard :: "Kind \<Rightarrow> bool" where
  "hard k = (k = Array \<or> k = Map \<or> k = Slice \<or> k = Struct)"

text \<open>Canonicalize order to reduce number of entries in visited.\<close>

definition canonical :: "uintptr \<Rightarrow> uintptr \<Rightarrow> uintptr \<times> uintptr" where
  "canonical addr1 addr2 = (if addr1 > addr2 then (addr2, addr1) else (addr1, addr2))"

type_synonym compare = "deepEqualState \<Rightarrow> Value \<Rightarrow> Value \<Rightarrow> outcome"

text \<open>One round of the element loops of the array and slice cases.\<close>

definition index_step ::
  "compare \<Rightarrow> (Value \<Rightarrow> loc \<Rightarrow> Value) \<Rightarrow> Value \<Rightarrow> Value \<Rightarrow> (loc \<times> loc) option \<Rightarrow>
   deepEqualState \<Rightarrow> outcome" where
  "index_step rec index v1 v2 e s =
     (case e of
        None \<Rightarrow> Inl Fault
      | Some (l1, l2) \<Rightarrow> rec s (index v1 l1) (index v2 l2))"

text \<open>One round of the field loop of the struct case.\<close>

definition field_step ::
  "compare \<Rightarrow> Value \<Rightarrow> Value \<Rightarrow> loc list \<Rightarrow> loc list \<Rightarrow> nat \<Rightarrow> deepEqualState \<Rightarrow> outcome" where
  "field_step rec v1 v2 fs1 fs2 i s =
     (let f = rtype_Fields (Type v1) ! i;
          s = printf s (''  '' @ Name f @ '': '');
          s = s\<lparr>sub := True\<rparr>
      in if i < length fs1 \<and> i < length fs2
         then rec s (Field v1 f (fs1 ! i)) (Field v2 f (fs2 ! i))
         else Inl Fault)"

text \<open>One round of the key loop of the map case.\<close>

definition key_step ::
  "compare \<Rightarrow> fmt \<Rightarrow> Value \<Rightarrow> Value \<Rightarrow> (scalar \<times> loc) list \<Rightarrow> (scalar \<times> loc) list \<Rightarrow>
   scalar \<times> bool \<Rightarrow> deepEqualState \<Rightarrow> outcome" where
  "key_step rec fm v1 v2 es1 es2 k s =
     (let s = printf s (fmt_sharp_key fm (fst k) @ '': '');
          s = s\<lparr>sub := True\<rparr>
      in rec s (MapIndex v1 es1 k) (MapIndex v2 es2 k))"

text \<open>
  The cases of \<^verbatim>\<open>switch v1.Kind()\<close>, one definition each, with \<open>rec\<close> for the
  recursive call and \<open>prt\<close> telling whether the formatting of a value returns within
  the budget.  Both values are valid and of one type when the switch is reached.
\<close>

definition case_Array :: "compare \<Rightarrow> memory \<Rightarrow> compare" where
  "case_Array rec h s v1 v2 =
     (let s = println s (''Comparing arrays of type: '' @ rtype_String (Type v1)) in
      case (load h v1, load h v2) of
        (Some (ArrayD es1), Some (ArrayD es2)) \<Rightarrow>
          all_loop (index_step rec Index_array v1 v2) (index_pairs es1 es2) s
      | _ \<Rightarrow> Inl Fault)"

definition case_Slice :: "compare \<Rightarrow> (Value \<Rightarrow> bool) \<Rightarrow> fmt \<Rightarrow> memory \<Rightarrow> compare" where
  "case_Slice rec prt fm h s v1 v2 =
     (let s = println s (''Comparing slices of type: '' @ rtype_String (Type v1)) in
      case (load h v1, load h v2) of
        (Some (SliceD p1 es1), Some (SliceD p2 es2)) \<Rightarrow>
          if (p1 = 0) \<noteq> (p2 = 0) then
            (if isRO v1 \<or> isRO v2 then Inl PanicInterface
             else if \<not> (prt v1 \<and> prt v2) then Inl OutOfFuel
             else
               let s = printf s (''  '' @ fmt_sharp_v fm h v1 @ '' != '' @
                                 fmt_sharp_v fm h v2 @ newline);
                   s = println s ''  One of the slices is nil, so not equal''
               in Inr (False, s))
          else if length es1 \<noteq> length es2 then
            Inr (False, println s ''  Unequal lengths, so not equal'')
          else if p1 = p2 then
            Inr (True, println s ''  Pointers equal, so equal'')
          else all_loop (index_step rec Index_slice v1 v2) (index_pairs es1 es2) s
      | _ \<Rightarrow> Inl Fault)"

definition case_Interface :: "compare \<Rightarrow> memory \<Rightarrow> compare" where
  "case_Interface rec h s v1 v2 =
     (let s = println s (''Comparing interfaces of type: '' @ rtype_String (Type v1)) in
      case (load h v1, load h v2) of
        (Some (IfaceD d1), Some (IfaceD d2)) \<Rightarrow>
          (case (d1, d2) of
             (Some l1, Some l2) \<Rightarrow> rec s (Elem_iface v1 l1) (Elem_iface v2 l2)
           | _ \<Rightarrow>
             Inr ((d1 = None) = (d2 = None),
                  println s ''  One of the interfaces is nil, so not equal''))
      | _ \<Rightarrow> Inl Fault)"

definition case_Ptr :: "compare \<Rightarrow> memory \<Rightarrow> compare" where
  "case_Ptr rec h s v1 v2 =
     (let s = println s (''Comparing pointers of type: '' @ rtype_String (Type v1)) in
      case (load h v1, load h v2) of
        (Some (PtrD l1), Some (PtrD l2)) \<Rightarrow> rec s (Elem_ptr v1 l1) (Elem_ptr v2 l2)
      | _ \<Rightarrow> Inl Fault)"

definition case_Struct :: "compare \<Rightarrow> memory \<Rightarrow> compare" where
  "case_Struct rec h s v1 v2 =
     (let s = println s (''Comparing structs of type: '' @ rtype_String (Type v1)) in
      case (load h v1, load h v2) of
        (Some (StructD fs1), Some (StructD fs2)) \<Rightarrow>
          all_loop (field_step rec v1 v2 fs1 fs2) [0..<length (rtype_Fields (Type v1))] s
      | _ \<Rightarrow> Inl Fault)"

definition case_Map :: "compare \<Rightarrow> fmt \<Rightarrow> memory \<Rightarrow> compare" where
  "case_Map rec fm h s v1 v2 =
     (let s = println s (''Comparing map of type: '' @ rtype_String (Type v1)) in
      case (load h v1, load h v2) of
        (Some (MapD p1 es1), Some (MapD p2 es2)) \<Rightarrow>
          if (p1 = 0) \<noteq> (p2 = 0) then
            Inr (False, println s ''  One of the maps is nil, so not equal'')
          else if length es1 \<noteq> length es2 then
            Inr (False, println s ''  Lengths don't match, so not equal'')
          else if p1 = p2 then
            Inr (True, println s ''  Same pointer, so equal'')
          else all_loop (key_step rec fm v1 v2 es1 es2) (MapKeys v1 es1) s
      | _ \<Rightarrow> Inl Fault)"

definition case_Func :: "memory \<Rightarrow> compare" where
  "case_Func h s v1 v2 =
     (case (load h v1, load h v2) of
        (Some (FuncD p1), Some (FuncD p2)) \<Rightarrow>
          if p1 = 0 \<and> p2 = 0 then
            Inr (True, println s ''  Both nil functions, so equal'')
          else Inr (False, println s ''  Not both nil functions, so not equal'')
      | _ \<Rightarrow> Inl Fault)"

text \<open>
  The default case: \<^verbatim>\<open>Interface()\<close> panics on a read-only value; the library's
  \<^verbatim>\<open>reflect.DeepEqual\<close> on two scalars of one type is Go's \<^verbatim>\<open>==\<close>.
\<close>

definition case_default :: "fmt \<Rightarrow> memory \<Rightarrow> compare" where
  "case_default fm h s v1 v2 =
     (if isRO v1 \<or> isRO v2 then Inl PanicInterface
      else
        case (load h v1, load h v2) of
          (Some (Scalar x1), Some (Scalar x2)) \<Rightarrow>
            if go_equal x1 x2 then
              Inr (True, printf s (fmt_sharp_v fm h v1 @ '' == '' @
                                   fmt_sharp_v fm h v2 @ newline))
            else
              Inr (False, printf s (fmt_sharp_v fm h v1 @ '' != '' @
                                    fmt_sharp_v fm h v2 @ newline))
        | _ \<Rightarrow> Inl Fault)"

definition kind_switch :: "compare \<Rightarrow> (Value \<Rightarrow> bool) \<Rightarrow> fmt \<Rightarrow> memory \<Rightarrow> compare" where
  "kind_switch rec prt fm h s v1 v2 =
    (if Kind v1 = Array then case_Array rec h s v1 v2
     else if Kind v1 = Slice then case_Slice rec prt fm h s v1 v2
     else if Kind v1 = Interface then case_Interface rec h s v1 v2
     else if Kind v1 = Ptr then case_Ptr rec h s v1 v2
     else if Kind v1 = Struct then case_Struct rec h s v1 v2
     else if Kind v1 = Map then case_Map rec fm h s v1 v2
     else if Kind v1 = Func then case_Func h s v1 v2
     else case_default fm h s v1 v2)"

text \<open>
  The body of \<^verbatim>\<open>deepValueEqual\<close> after \<^verbatim>\<open>incDepth\<close>: the validity check, the type
  check, the check of the visited map for addressable values of a hard kind, and the
  switch.
\<close>

definition deepValueEqual_body ::
  "compare \<Rightarrow> (Value \<Rightarrow> bool) \<Rightarrow> fmt \<Rightarrow> memory \<Rightarrow> compare" where
  "deepValueEqual_body rec prt fm h s v1 v2 =
    (if \<not> IsValid v1 \<or> \<not> IsValid v2 then
       (if \<not> (prt v1 \<and> prt v2) then Inl OutOfFuel
        else
          Inr (IsValid v1 = IsValid v2,
               println s (''Something is not valid: '' @ fmt_v fm h v1 @ '' '' @ fmt_v fm h v2)))
     else if Type v1 \<noteq> Type v2 then
       Inr (False, println s ''Types don't match'')
     else if CanAddr v1 \<and> CanAddr v2 \<and> hard (Kind v1) then
       (let (addr1, addr2) = canonical (UnsafeAddr v1) (UnsafeAddr v2) in
        if addr1 = addr2 then
          Inr (True, println s ''  Same address, so equal'')
        else
          let v = \<lparr>a1 = addr1, a2 = addr2, vtyp = Type v1\<rparr> in
          if visited s v = Some True then
            Inr (True, println s ''  Already visited, so equal'')
          else
            kind_switch rec prt fm h (s\<lparr>visited := (visited s)(v \<mapsto> True)\<rparr>) v1 v2)
     else kind_switch rec prt fm h s v1 v2)"

text \<open>\<^verbatim>\<open>defer s.decDepth()\<close>: runs when the call returns.\<close>

definition deferred :: "(deepEqualState \<Rightarrow> deepEqualState) \<Rightarrow> outcome \<Rightarrow> outcome" where
  "deferred g r = (case r of Inl e \<Rightarrow> Inl e | Inr (b, s) \<Rightarrow> Inr (b, g s))"

text \<open>
  The recursion of \<^verbatim>\<open>deepValueEqual\<close>, bounded by a budget of nested calls: Go values
  can be cyclic, and the comparator is not total on them.  What is left of the budget
  in a call bounds the calls nested in it, those of package \<^verbatim>\<open>fmt\<close> included.
\<close>

primrec deepValueEqual :: "fmt \<Rightarrow> memory \<Rightarrow> nat \<Rightarrow> compare" where
  "deepValueEqual fm h 0 s v1 v2 = Inl OutOfFuel"
| "deepValueEqual fm h (Suc n) s v1 v2 =
     deferred decDepth
       (deepValueEqual_body (deepValueEqual fm h n) (fmt_returns h n) fm h (incDepth s) v1 v2)"

section \<open>DeepEqual\<close>

definition fresh_state :: deepEqualState where
  "fresh_state = \<lparr>visited = Map.empty, depth = - 1, sub = False, w = []\<rparr>"

definition DeepEqual :: "fmt \<Rightarrow> memory \<Rightarrow> nat \<Rightarrow> eface \<Rightarrow> eface \<Rightarrow> error + bool \<times> string" where
  "DeepEqual fm h n x1 x2 =
     (if x1 = None \<or> x2 = None then Inr (x1 = x2, [])
      else
        let v1 = ValueOf x1; v2 = ValueOf x2 in
        if Type v1 \<noteq> Type v2 then Inr (False, [])
        else
          case deepValueEqual fm h n fresh_state v1 v2 of
            Inl e \<Rightarrow> Inl e
          | Inr (b, s) \<Rightarrow> Inr (b, w s))"

section \<open>The comparator without its trace\<close>

text \<open>
  The verdict of \<^verbatim>\<open>deepValueEqual\<close> depends on the state only through the visited
  map.  The definitions of this section restate the comparator on the visited map
  alone; they are proved below to compute the verdict and the visited map of
  \<open>deepValueEqual\<close>, and serve to reason about it.
\<close>

type_synonym visits = "visit \<rightharpoonup> bool"

text \<open>The test that guards the visited map, and the key it looks up.\<close>

definition guarded :: "Value \<Rightarrow> Value \<Rightarrow> bool" where
  "guarded v1 v2 = (CanAddr v1 \<and> CanAddr v2 \<and> hard (Kind v1))"

definition visit_key :: "Value \<Rightarrow> Value \<Rightarrow> visit" where
  "visit_key v1 v2 =
     (let (addr1, addr2) = canonical (UnsafeAddr v1) (UnsafeAddr v2)
      in \<lparr>a1 = addr1, a2 = addr2, vtyp = Type v1\<rparr>)"

text \<open>
  What the switch does with two valid values of one type: it decides at once
  (\<open>Leaf\<close>), it does not return (\<open>Stuck\<close>), or it compares pairs of parts in order
  (\<open>Node\<close>; a pair that cannot be formed is \<open>None\<close>).
\<close>

datatype parts = Leaf bool | Stuck error | Node "(Value \<times> Value) option list"

definition parts :: "memory \<Rightarrow> Value \<Rightarrow> Value \<Rightarrow> parts" where
  "parts h v1 v2 =
    (if Kind v1 = Array then
       (case (load h v1, load h v2) of
          (Some (ArrayD es1), Some (ArrayD es2)) \<Rightarrow>
            Node (map (map_option (\<lambda>(l1, l2). (Index_array v1 l1, Index_array v2 l2)))
                    (index_pairs es1 es2))
        | _ \<Rightarrow> Stuck Fault)
     else if Kind v1 = Slice then
       (case (load h v1, load h v2) of
          (Some (SliceD p1 es1), Some (SliceD p2 es2)) \<Rightarrow>
            if (p1 = 0) \<noteq> (p2 = 0) then
              (if isRO v1 \<or> isRO v2 then Stuck PanicInterface else Leaf False)
            else if length es1 \<noteq> length es2 then Leaf False
            else if p1 = p2 then Leaf True
            else Node (map (map_option (\<lambda>(l1, l2). (Index_slice v1 l1, Index_slice v2 l2)))
                         (index_pairs es1 es2))
        | _ \<Rightarrow> Stuck Fault)
     else if Kind v1 = Interface then
       (case (load h v1, load h v2) of
          (Some (IfaceD d1), Some (IfaceD d2)) \<Rightarrow>
            (case (d1, d2) of
               (Some l1, Some l2) \<Rightarrow> Node [Some (Elem_iface v1 l1, Elem_iface v2 l2)]
             | _ \<Rightarrow> Leaf ((d1 = None) = (d2 = None)))
        | _ \<Rightarrow> Stuck Fault)
     else if Kind v1 = Ptr then
       (case (load h v1, load h v2) of
          (Some (PtrD l1), Some (PtrD l2)) \<Rightarrow> Node [Some (Elem_ptr v1 l1, Elem_ptr v2 l2)]
        | _ \<Rightarrow> Stuck Fault)
     else if Kind v1 = Struct then
       (case (load h v1, load h v2) of
          (Some (StructD fs1), Some (StructD fs2)) \<Rightarrow>
            Node (map (\<lambda>i. if i < length fs1 \<and> i < length fs2
                            then Some (Field v1 (rtype_Fields (Type v1) ! i) (fs1 ! i),
                                       Field v2 (rtype_Fields (Type v1) ! i) (fs2 ! i))
                            else None)
                    [0..<length (rtype_Fields (Type v1))])
        | _ \<Rightarrow> Stuck Fault)
     else if Kind v1 = Map then
       (case (load h v1, load h v2) of
          (Some (MapD p1 es1), Some (MapD p2 es2)) \<Rightarrow>
            if (p1 = 0) \<noteq> (p2 = 0) then Leaf False
            else if length es1 \<noteq> length es2 then Leaf False
            else if p1 = p2 then Leaf True
            else Node (map (\<lambda>k. Some (MapIndex v1 es1 k, MapIndex v2 es2 k)) (MapKeys v1 es1))
        | _ \<Rightarrow> Stuck Fault)
     else if Kind v1 = Func then
       (case (load h v1, load h v2) of
          (Some (FuncD p1), Some (FuncD p2)) \<Rightarrow> Leaf (p1 = 0 \<and> p2 = 0)
        | _ \<Rightarrow> Stuck Fault)
     else
       (if isRO v1 \<or> isRO v2 then Stuck PanicInterface
        else
          case (load h v1, load h v2) of
            (Some (Scalar x1), Some (Scalar x2)) \<Rightarrow> Leaf (go_equal x1 x2)
          | _ \<Rightarrow> Stuck Fault))"

text \<open>
  The values the switch formats for the trace before it decides: the two slices of
  which one is nil.
\<close>

definition printed :: "memory \<Rightarrow> Value \<Rightarrow> Value \<Rightarrow> Value list" where
  "printed h v1 v2 =
    (if Kind v1 = Slice then
       (case (load h v1, load h v2) of
          (Some (SliceD p1 es1), Some (SliceD p2 es2)) \<Rightarrow>
            if (p1 = 0) \<noteq> (p2 = 0) \<and> \<not> (isRO v1 \<or> isRO v2) then [v1, v2] else []
        | _ \<Rightarrow> [])
     else [])"

type_synonym verdicts = "visits \<Rightarrow> Value \<Rightarrow> Value \<Rightarrow> error + bool \<times> visits"

definition part_step :: "verdicts \<Rightarrow> (Value \<times> Value) option \<Rightarrow> visits \<Rightarrow> error + bool \<times> visits" where
  "part_step rec c V = (case c of None \<Rightarrow> Inl Fault | Some (c1, c2) \<Rightarrow> rec V c1 c2)"

definition run_parts :: "verdicts \<Rightarrow> parts \<Rightarrow> visits \<Rightarrow> error + bool \<times> visits" where
  "run_parts rec ps V =
     (case ps of
        Leaf b \<Rightarrow> Inr (b, V)
      | Stuck e \<Rightarrow> Inl e
      | Node cs \<Rightarrow> all_loop (part_step rec) cs V)"

text \<open>The switch: the values it formats, then its parts.\<close>

definition run_switch ::
  "verdicts \<Rightarrow> (Value \<Rightarrow> bool) \<Rightarrow> memory \<Rightarrow> verdicts" where
  "run_switch rec prt h V v1 v2 =
     (if list_all prt (printed h v1 v2) then run_parts rec (parts h v1 v2) V
      else Inl OutOfFuel)"

definition verdict_body :: "verdicts \<Rightarrow> (Value \<Rightarrow> bool) \<Rightarrow> memory \<Rightarrow> verdicts" where
  "verdict_body rec prt h V v1 v2 =
    (if \<not> IsValid v1 \<or> \<not> IsValid v2 then
       (if prt v1 \<and> prt v2 then Inr (IsValid v1 = IsValid v2, V) else Inl OutOfFuel)
     else if Type v1 \<noteq> Type v2 then Inr (False, V)
     else if guarded v1 v2 then
       (if UnsafeAddr v1 = UnsafeAddr v2 then Inr (True, V)
        else if V (visit_key v1 v2) = Some True then Inr (True, V)
        else run_switch rec prt h (V(visit_key v1 v2 \<mapsto> True)) v1 v2)
     else run_switch rec prt h V v1 v2)"

primrec verdict :: "memory \<Rightarrow> nat \<Rightarrow> verdicts" where
  "verdict h 0 V v1 v2 = Inl OutOfFuel"
| "verdict h (Suc n) V v1 v2 = verdict_body (verdict h n) (fmt_returns h n) h V v1 v2"

text \<open>The verdict and the visited map of an outcome.\<close>

definition erase :: "outcome \<Rightarrow> error + bool \<times> visits" where
  "erase r = (case r of Inl e \<Rightarrow> Inl e | Inr (b, s) \<Rightarrow> Inr (b, visited s))"


section \<open>Relations between states\<close>

text \<open>The trace of \<open>s'\<close> is the trace of \<open>s\<close> followed by text that ends a line.\<close>

definition wrote :: "deepEqualState \<Rightarrow> deepEqualState \<Rightarrow> bool" where
  "wrote s s' = (\<exists>txt. w s' = w s @ txt @ newline)"

text \<open>
  Every key of the visited map has its smaller address first; \<open>V'\<close> has every entry
  of \<open>V\<close> unchanged, but for keys of this form that it holds with the value true.
\<close>

definition canonical_keys :: "visits \<Rightarrow> bool" where
  "canonical_keys V = (\<forall>k\<in>dom V. a1 k < a2 k)"

definition grows :: "visits \<Rightarrow> visits \<Rightarrow> bool" where
  "grows V V' = (\<forall>k. V' k = V k \<or> (a1 k < a2 k \<and> V' k = Some True))"


section \<open>Kinds of the default case\<close>


section \<open>Sets of pairs of values\<close>

text \<open>The keys of the visited map that are marked.\<close>

definition seen :: "visits \<Rightarrow> visit set" where
  "seen V = {k. V k = Some True}"











text \<open>The outcomes a simulation allows: an error of \<open>E\<close>, an exhausted budget, a verdict of \<open>L\<close>.\<close>

definition allowed :: "error set \<Rightarrow> (bool \<Rightarrow> bool) \<Rightarrow> error + bool \<times> 's \<Rightarrow> bool" where
  "allowed E L r = (case r of Inl e \<Rightarrow> e = OutOfFuel \<or> e \<in> E | Inr (b, V) \<Rightarrow> L b)"




section \<open>Pairs that a returned verdict of true relies on\<close>











section \<open>Example values\<close>

text \<open>A formatter that prints every value as an underscore.\<close>

definition fmt_stub :: fmt where
  "fmt_stub = \<lparr>fmt_v = (\<lambda>h v. ''_''), fmt_sharp_v = (\<lambda>h v. ''_''), fmt_sharp_key = (\<lambda>k. ''_'')\<rparr>"

definition tInt :: rtype where
  "tInt = \<lparr>rtype_PkgPath = [], rtype_String = ''int'', rtype_Kind = Kind.Int, rtype_Fields = []\<rparr>"

definition tString :: rtype where
  "tString = \<lparr>rtype_PkgPath = [], rtype_String = ''string'', rtype_Kind = String,
              rtype_Fields = []\<rparr>"

definition tSliceInt :: rtype where
  "tSliceInt = \<lparr>rtype_PkgPath = [], rtype_String = ''[]int'', rtype_Kind = Slice,
                rtype_Fields = []\<rparr>"

text \<open>\<^verbatim>\<open>var s []int\<close> at address 16 and \<^verbatim>\<open>[]int{}\<close> at address 40.\<close>

definition mem_slices :: memory where
  "mem_slices = map_of
     [((16, tSliceInt), SliceD 0 []),
      ((40, tSliceInt), SliceD 4096 [])]"

definition tFunc :: rtype where
  "tFunc = \<lparr>rtype_PkgPath = [], rtype_String = ''func()'', rtype_Kind = Func, rtype_Fields = []\<rparr>"

definition tArrayFunc :: rtype where
  "tArrayFunc = \<lparr>rtype_PkgPath = [], rtype_String = ''[1]func()'', rtype_Kind = Array,
                 rtype_Fields = []\<rparr>"

text \<open>\<^verbatim>\<open>[1]func(){f}\<close> at address 48, with \<^verbatim>\<open>f\<close> a func that is not nil.\<close>

definition mem_array_func :: memory where
  "mem_array_func = map_of
     [((48, tArrayFunc), ArrayD [(48, tFunc)]),
      ((48, tFunc), FuncD 8192)]"

definition tMapStringInt :: rtype where
  "tMapStringInt = \<lparr>rtype_PkgPath = [], rtype_String = ''map[string]int'', rtype_Kind = Map,
                    rtype_Fields = []\<rparr>"

text \<open>
  \<^verbatim>\<open>type T struct { x int }\<close> of package main, and \<^verbatim>\<open>*T\<close>.
\<close>

definition tT :: rtype where
  "tT = \<lparr>rtype_PkgPath = ''main'', rtype_String = ''main.T'', rtype_Kind = Struct,
         rtype_Fields = [\<lparr>Name = ''x'', PkgPath = ''main'', Anonymous = False\<rparr>]\<rparr>"

definition tPtrT :: rtype where
  "tPtrT = \<lparr>rtype_PkgPath = [], rtype_String = ''*main.T'', rtype_Kind = Ptr, rtype_Fields = []\<rparr>"

text \<open>
  \<^verbatim>\<open>T{x: 1}\<close> at addresses 64 and 72, a slice and a map, and a pointer to the first
  \<^verbatim>\<open>T\<close> at address 96.
\<close>

definition mem_T :: memory where
  "mem_T = map_of
     [((64, tT), StructD [(64, tInt)]),
      ((64, tInt), Scalar (IntV 1)),
      ((72, tT), StructD [(72, tInt)]),
      ((72, tInt), Scalar (IntV 1)),
      ((80, tSliceInt), SliceD 4096 [(4096, tInt), (4104, tInt)]),
      ((4096, tInt), Scalar (IntV 1)),
      ((4104, tInt), Scalar (IntV 2)),
      ((88, tMapStringInt), MapD 12288 [(StringV ''a'', (12296, tInt))]),
      ((12296, tInt), Scalar (IntV 1)),
      ((96, tPtrT), PtrD (64, tT))]"


text \<open>
  \<^verbatim>\<open>type Node struct { Val int; Next *Node }\<close> of package main, and \<^verbatim>\<open>*Node\<close>.
\<close>

definition tNode :: rtype where
  "tNode = \<lparr>rtype_PkgPath = ''main'', rtype_String = ''main.Node'', rtype_Kind = Struct,
            rtype_Fields = [\<lparr>Name = ''Val'', PkgPath = [], Anonymous = False\<rparr>, \<lparr>Name = ''Next'', PkgPath = [], Anonymous = False\<rparr>]\<rparr>"

definition tPtrNode :: rtype where
  "tPtrNode = \<lparr>rtype_PkgPath = [], rtype_String = ''*main.Node'', rtype_Kind = Ptr,
               rtype_Fields = []\<rparr>"

text \<open>
  Two nodes that point to themselves, at addresses 256 and 512, both with \<^verbatim>\<open>Val\<close> 1,
  and two nodes at 768 and 1024 that point to each other, with \<^verbatim>\<open>Val\<close> 1; pointers to
  the first, the second and the third node are at 128, 136 and 144.
\<close>

definition mem_nodes :: memory where
  "mem_nodes = map_of
     [((256, tNode), StructD [(256, tInt), (264, tPtrNode)]),
      ((256, tInt), Scalar (IntV 1)),
      ((264, tPtrNode), PtrD (256, tNode)),
      ((512, tNode), StructD [(512, tInt), (520, tPtrNode)]),
      ((512, tInt), Scalar (IntV 1)),
      ((520, tPtrNode), PtrD (512, tNode)),
      ((768, tNode), StructD [(768, tInt), (776, tPtrNode)]),
      ((768, tInt), Scalar (IntV 1)),
      ((776, tPtrNode), PtrD (1024, tNode)),
      ((1024, tNode), StructD [(1024, tInt), (1032, tPtrNode)]),
      ((1024, tInt), Scalar (IntV 1)),
      ((1032, tPtrNode), PtrD (768, tNode)),
      ((128, tPtrNode), PtrD (256, tNode)),
      ((136, tPtrNode), PtrD (512, tNode)),
      ((144, tPtrNode), PtrD (768, tNode))]"














text \<open>
  \<^verbatim>\<open>m := map[string]interface{}{}; m["self"] = m\<close>, twice: the maps at addresses 9500
  and 9600 each hold an interface that holds the map itself.
\<close>

definition tIface :: rtype where
  "tIface = \<lparr>rtype_PkgPath = [], rtype_String = ''interface {}'', rtype_Kind = Interface,
             rtype_Fields = []\<rparr>"

definition tMapIface :: rtype where
  "tMapIface = \<lparr>rtype_PkgPath = [], rtype_String = ''map[string]interface {}'',
                rtype_Kind = Map, rtype_Fields = []\<rparr>"

definition mem_map_cycle :: memory where
  "mem_map_cycle = map_of
     [((9500, tMapIface), MapD 95000 [(StringV ''self'', (95008, tIface))]),
      ((95008, tIface), IfaceD (Some (95016, tMapIface))),
      ((95016, tMapIface), MapD 95000 [(StringV ''self'', (95008, tIface))]),
      ((9600, tMapIface), MapD 96000 [(StringV ''self'', (96008, tIface))]),
      ((96008, tIface), IfaceD (Some (96016, tMapIface))),
      ((96016, tMapIface), MapD 96000 [(StringV ''self'', (96008, tIface))])]"

text \<open>
  \<^verbatim>\<open>type N struct { M map[string]N }\<close> with \<^verbatim>\<open>n.M["k"] = n\<close>, twice: the records at
  addresses 9000 and 9100 each hold a map that holds a copy of the record, whose field
  is the same map.
\<close>

definition tN :: rtype where
  "tN = \<lparr>rtype_PkgPath = ''main'', rtype_String = ''main.N'', rtype_Kind = Struct,
         rtype_Fields = [\<lparr>Name = ''M'', PkgPath = [], Anonymous = False\<rparr>]\<rparr>"

definition tMapN :: rtype where
  "tMapN = \<lparr>rtype_PkgPath = [], rtype_String = ''map[string]main.N'', rtype_Kind = Map,
            rtype_Fields = []\<rparr>"

definition mem_record_cycle :: memory where
  "mem_record_cycle = map_of
     [((9000, tN), StructD [(9000, tMapN)]),
      ((9000, tMapN), MapD 90000 [(StringV ''k'', (90008, tN))]),
      ((90008, tN), StructD [(90008, tMapN)]),
      ((90008, tMapN), MapD 90000 [(StringV ''k'', (90008, tN))]),
      ((9100, tN), StructD [(9100, tMapN)]),
      ((9100, tMapN), MapD 91000 [(StringV ''k'', (91008, tN))]),
      ((91008, tN), StructD [(91008, tMapN)]),
      ((91008, tMapN), MapD 91000 [(StringV ''k'', (91008, tN))])]"


text \<open>
  \<^verbatim>\<open>type T []T\<close> with \<^verbatim>\<open>b := make(T, 1); b[0] = b\<close> at address 8000, and the nil
  \<^verbatim>\<open>T\<close> at address 8100: the only element of \<^verbatim>\<open>b\<close> is \<^verbatim>\<open>b\<close> itself.
\<close>

definition tSelf :: rtype where
  "tSelf = \<lparr>rtype_PkgPath = ''main'', rtype_String = ''main.T'', rtype_Kind = Slice,
            rtype_Fields = []\<rparr>"

definition mem_self_slice :: memory where
  "mem_self_slice = map_of
     [((8000, tSelf), SliceD 80000 [(80000, tSelf)]),
      ((80000, tSelf), SliceD 80000 [(80000, tSelf)]),
      ((8100, tSelf), SliceD 0 [])]"



section \<open>Basic facts\<close>

lemma deferred_simps [simp]:
  "deferred g (Inl e) = Inl e" "deferred g (Inr (b, s)) = Inr (b, g s)"
  by (simp_all add: deferred_def)

lemma write_prefix_fields [simp]:
  "visited (write_prefix s) = visited s" "depth (write_prefix s) = depth s"
  "sub (write_prefix s) = False"
  by (simp_all add: write_prefix_def)

lemma println_fields [simp]:
  "visited (println s t) = visited s" "depth (println s t) = depth s"
  "sub (println s t) = False" "w (println s t) = w (write_prefix s) @ t @ newline"
  by (simp_all add: println_def Let_def)

lemma printf_fields [simp]:
  "visited (printf s t) = visited s" "depth (printf s t) = depth s"
  "sub (printf s t) = False" "w (printf s t) = w (write_prefix s) @ t"
  by (simp_all add: printf_def Let_def)

lemma incDepth_fields [simp]:
  "visited (incDepth s) = visited s" "depth (incDepth s) = depth s + 1"
  "sub (incDepth s) = sub s" "w (incDepth s) = w s"
  by (simp_all add: incDepth_def)

lemma decDepth_fields [simp]:
  "visited (decDepth s) = visited s" "depth (decDepth s) = depth s - 1"
  "sub (decDepth s) = sub s" "w (decDepth s) = w s"
  by (simp_all add: decDepth_def)

lemma ValueOf_Some [simp]: "ValueOf (Some (p, t)) = Val t p False False False"
  by (simp add: ValueOf_def)

lemma Value_simps [simp]:
  "IsValid (Val t p a r e)" "\<not> IsValid ZeroValue"
  "Type (Val t p a r e) = t" "Kind (Val t p a r e) = rtype_Kind t" "Kind ZeroValue = Invalid"
  "CanAddr (Val t p a r e) = a" "\<not> CanAddr ZeroValue"
  "UnsafeAddr (Val t p a r e) = p" "isRO (Val t p a r e) = (r \<or> e)" "\<not> isRO ZeroValue"
  "stickyRO (Val t p a r e) = r" "\<not> stickyRO ZeroValue"
  "embedRO (Val t p a r e) = e" "\<not> embedRO ZeroValue"
  "load h (Val t p a r e) = h (p, t)" "load h ZeroValue = None"
  "fmt_returns h k (Val t p a r e) = printValue h k True (p, t)" "fmt_returns h k ZeroValue"
  by (simp_all add: IsValid_def Type_def Kind_def CanAddr_def UnsafeAddr_def isRO_def
      stickyRO_def embedRO_def load_def fmt_returns_def)

lemma w_write_prefix:
  "w (write_prefix s) =
     w s @ (if sub s then [] else if 0 < depth s then concat (replicate (nat (depth s)) ''  '')
            else [])"
  by (simp add: write_prefix_def)

lemma fresh_state_fields [simp]:
  "visited fresh_state = Map.empty" "depth fresh_state = - 1" "sub fresh_state = False"
  "w fresh_state = []"
  by (simp_all add: fresh_state_def)

lemma w_fresh_prefix: "w (write_prefix (incDepth fresh_state)) = []"
  by (simp add: w_write_prefix)


lemma printValue_no_parts: "fmt_parts h outer l = [] \<Longrightarrow> printValue h k outer l"
  by (cases k) simp_all

section \<open>The trace does not influence the verdict\<close>

lemma erase_simps [simp]:
  "erase (Inl e) = Inl e" "erase (Inr (b, s)) = Inr (b, visited s)"
  by (simp_all add: erase_def)

lemma erase_deferred [simp]: "erase (deferred decDepth r) = erase r"
  by (cases r) (auto simp: deferred_def)

lemma erase_all_loop:
  assumes "\<And>x s. x \<in> set xs \<Longrightarrow> erase (f x s) = g (k x) (visited s)"
  shows "erase (all_loop f xs s) = all_loop g (map k xs) (visited s)"
  using assms
proof (induction xs arbitrary: s)
  case Nil
  then show ?case by simp
next
  case (Cons x xs)
  have step: "erase (f x s) = g (k x) (visited s)" using Cons.prems by simp
  show ?case
  proof (cases "f x s")
    case (Inl e)
    with step have "g (k x) (visited s) = Inl e" by simp
    with Inl show ?thesis by simp
  next
    case (Inr r)
    obtain b s' where r: "r = (b, s')" by (cases r)
    with Inr step have g: "g (k x) (visited s) = Inr (b, visited s')" by simp
    from Cons.IH [of s'] Cons.prems
    have "erase (all_loop f xs s') = all_loop g (map k xs) (visited s')" by simp
    with Inr r g show ?thesis by simp
  qed
qed

lemma all_loop_single [simp]: "all_loop f [x] s = f x s"
  by (auto split: sum.splits)

lemma index_step_erase:
  assumes "\<And>s v1 v2. erase (rec s v1 v2) = recA (visited s) v1 v2"
  shows "erase (index_step rec index v1 v2 e s) =
         part_step recA (map_option (\<lambda>(l1, l2). (index v1 l1, index v2 l2)) e) (visited s)"
  using assms by (cases e) (auto simp: index_step_def part_step_def)

lemma index_loop_erase:
  assumes "\<And>s v1 v2. erase (rec s v1 v2) = recA (visited s) v1 v2"
  shows "erase (all_loop (index_step rec index v1 v2) es s) =
         all_loop (part_step recA)
           (map (map_option (\<lambda>(l1, l2). (index v1 l1, index v2 l2))) es) (visited s)"
  by (rule erase_all_loop) (rule index_step_erase [where rec = rec and recA = recA], rule assms)

lemma case_Array_erase:
  assumes "\<And>s v1 v2. erase (rec s v1 v2) = recA (visited s) v1 v2"
    and "Kind v1 = Array"
  shows "erase (case_Array rec h s v1 v2) = run_parts recA (parts h v1 v2) (visited s)"
  using assms(2)
  by (auto simp: case_Array_def parts_def run_parts_def Let_def
      index_loop_erase [where rec = rec and recA = recA, OF assms(1)]
      split: option.splits data.splits)

lemma case_Slice_erase:
  assumes "\<And>s v1 v2. erase (rec s v1 v2) = recA (visited s) v1 v2"
    and "Kind v1 = Slice"
  shows "erase (case_Slice rec prt fm h s v1 v2) = run_switch recA prt h (visited s) v1 v2"
  using assms(2)
  by (auto simp: case_Slice_def parts_def printed_def run_switch_def run_parts_def Let_def
      index_loop_erase [where rec = rec and recA = recA, OF assms(1)]
      split: option.splits data.splits)

lemma case_Interface_erase:
  assumes "\<And>s v1 v2. erase (rec s v1 v2) = recA (visited s) v1 v2"
    and "Kind v1 = Interface"
  shows "erase (case_Interface rec h s v1 v2) = run_parts recA (parts h v1 v2) (visited s)"
  using assms
  by (auto simp: case_Interface_def parts_def run_parts_def Let_def part_step_def
      split: option.splits data.splits sum.splits)

lemma case_Ptr_erase:
  assumes "\<And>s v1 v2. erase (rec s v1 v2) = recA (visited s) v1 v2"
    and "Kind v1 = Ptr"
  shows "erase (case_Ptr rec h s v1 v2) = run_parts recA (parts h v1 v2) (visited s)"
  using assms
  by (auto simp: case_Ptr_def parts_def run_parts_def Let_def part_step_def
      split: option.splits data.splits sum.splits)

lemma field_step_erase:
  assumes "\<And>s v1 v2. erase (rec s v1 v2) = recA (visited s) v1 v2"
  shows "erase (field_step rec v1 v2 fs1 fs2 i s) =
         part_step recA
           (if i < length fs1 \<and> i < length fs2
            then Some (Field v1 (rtype_Fields (Type v1) ! i) (fs1 ! i),
                       Field v2 (rtype_Fields (Type v1) ! i) (fs2 ! i))
            else None) (visited s)"
  using assms by (auto simp: field_step_def part_step_def Let_def)

lemma field_loop_erase:
  assumes "\<And>s v1 v2. erase (rec s v1 v2) = recA (visited s) v1 v2"
  shows "erase (all_loop (field_step rec v1 v2 fs1 fs2) is s) =
         all_loop (part_step recA)
           (map (\<lambda>i. if i < length fs1 \<and> i < length fs2
                       then Some (Field v1 (rtype_Fields (Type v1) ! i) (fs1 ! i),
                                  Field v2 (rtype_Fields (Type v1) ! i) (fs2 ! i))
                       else None) is) (visited s)"
  by (rule erase_all_loop) (rule field_step_erase [where rec = rec and recA = recA], rule assms)

lemma case_Struct_erase:
  assumes "\<And>s v1 v2. erase (rec s v1 v2) = recA (visited s) v1 v2"
    and "Kind v1 = Struct"
  shows "erase (case_Struct rec h s v1 v2) = run_parts recA (parts h v1 v2) (visited s)"
  using assms(2)
  by (auto simp: case_Struct_def parts_def run_parts_def Let_def
      field_loop_erase [where rec = rec and recA = recA, OF assms(1)]
      split: option.splits data.splits)

lemma key_step_erase:
  assumes "\<And>s v1 v2. erase (rec s v1 v2) = recA (visited s) v1 v2"
  shows "erase (key_step rec fm v1 v2 es1 es2 k s) =
         part_step recA (Some (MapIndex v1 es1 k, MapIndex v2 es2 k)) (visited s)"
  using assms by (auto simp: key_step_def part_step_def Let_def)

lemma key_loop_erase:
  assumes "\<And>s v1 v2. erase (rec s v1 v2) = recA (visited s) v1 v2"
  shows "erase (all_loop (key_step rec fm v1 v2 es1 es2) ks s) =
         all_loop (part_step recA)
           (map (\<lambda>k. Some (MapIndex v1 es1 k, MapIndex v2 es2 k)) ks) (visited s)"
  by (rule erase_all_loop) (rule key_step_erase [where rec = rec and recA = recA], rule assms)

lemma case_Map_erase:
  assumes "\<And>s v1 v2. erase (rec s v1 v2) = recA (visited s) v1 v2"
    and "Kind v1 = Map"
  shows "erase (case_Map rec fm h s v1 v2) = run_parts recA (parts h v1 v2) (visited s)"
  using assms(2)
  by (auto simp: case_Map_def parts_def run_parts_def Let_def
      key_loop_erase [where rec = rec and recA = recA, OF assms(1)]
      split: option.splits data.splits)

lemma case_Func_erase:
  assumes "Kind v1 = Func"
  shows "erase (case_Func h s v1 v2) = run_parts recA (parts h v1 v2) (visited s)"
  using assms
  by (auto simp: case_Func_def parts_def run_parts_def split: option.splits data.splits)

lemma case_default_erase:
  assumes "Kind v1 \<noteq> Array" "Kind v1 \<noteq> Slice" "Kind v1 \<noteq> Interface" "Kind v1 \<noteq> Ptr"
    "Kind v1 \<noteq> Struct" "Kind v1 \<noteq> Map" "Kind v1 \<noteq> Func"
  shows "erase (case_default fm h s v1 v2) = run_parts recA (parts h v1 v2) (visited s)"
  using assms
  by (auto simp: case_default_def parts_def run_parts_def split: option.splits data.splits)

lemma run_switch_other:
  "Kind v1 \<noteq> Slice \<Longrightarrow> run_switch rec prt h V v1 v2 = run_parts rec (parts h v1 v2) V"
  by (simp add: run_switch_def printed_def)

lemma kind_switch_erase:
  assumes "\<And>s v1 v2. erase (rec s v1 v2) = recA (visited s) v1 v2"
  shows "erase (kind_switch rec prt fm h s v1 v2) = run_switch recA prt h (visited s) v1 v2"
proof (cases "Kind v1 = Slice")
  case True
  then show ?thesis
    using case_Slice_erase [where rec = rec and recA = recA, OF assms]
    by (simp add: kind_switch_def)
next
  case False
  then show ?thesis
    unfolding kind_switch_def run_switch_other [OF False]
    using case_Array_erase [where rec = rec and recA = recA, OF assms]
      case_Interface_erase [where rec = rec and recA = recA, OF assms]
      case_Ptr_erase [where rec = rec and recA = recA, OF assms]
      case_Struct_erase [where rec = rec and recA = recA, OF assms]
      case_Map_erase [where rec = rec and recA = recA, OF assms]
      case_Func_erase case_default_erase
    by simp
qed

lemma deepValueEqual_body_erase:
  assumes "\<And>s v1 v2. erase (rec s v1 v2) = recA (visited s) v1 v2"
  shows "erase (deepValueEqual_body rec prt fm h s v1 v2) =
         verdict_body recA prt h (visited s) v1 v2"
proof -
  have sw: "\<And>s'. erase (kind_switch rec prt fm h s' v1 v2) =
                  run_switch recA prt h (visited s') v1 v2"
    by (rule kind_switch_erase [where rec = rec and recA = recA, OF assms])
  show ?thesis
  proof (cases "UnsafeAddr v1 > UnsafeAddr v2")
    case True
    then show ?thesis
      by (simp add: deepValueEqual_body_def verdict_body_def guarded_def visit_key_def sw
          canonical_def Let_def)
  next
    case False
    then show ?thesis
      by (simp add: deepValueEqual_body_def verdict_body_def guarded_def visit_key_def sw
          canonical_def Let_def)
  qed
qed

lemma deepValueEqual_erase:
  "erase (deepValueEqual fm h n s v1 v2) = verdict h n (visited s) v1 v2"
proof (induction n arbitrary: s v1 v2)
  case 0
  show ?case by simp
next
  case (Suc n)
  have "erase (deepValueEqual_body (deepValueEqual fm h n) (fmt_returns h n) fm h
                 (incDepth s) v1 v2) =
        verdict_body (verdict h n) (fmt_returns h n) h (visited (incDepth s)) v1 v2"
    by (rule deepValueEqual_body_erase [where rec = "deepValueEqual fm h n" and recA = "verdict h n"])
      (rule Suc.IH)
  then show ?case by simp
qed


section \<open>Loops and relations\<close>

lemma all_loop_rel:
  assumes refl: "\<And>s. R s s"
    and trans: "\<And>a b c. R a b \<Longrightarrow> R b c \<Longrightarrow> R a c"
    and step: "\<And>x s b s'. x \<in> set xs \<Longrightarrow> f x s = Inr (b, s') \<Longrightarrow> R s s'"
    and run: "all_loop f xs s = Inr (b, s')"
  shows "R s s'"
  using step run
proof (induction xs arbitrary: s)
  case Nil
  then show ?case using refl by simp
next
  case (Cons x xs)
  from Cons.prems(2) obtain b1 s1 where f: "f x s = Inr (b1, s1)"
    by (cases "f x s") auto
  have r1: "R s s1" using Cons.prems(1) [of x s b1 s1] f by simp
  show ?case
  proof (cases b1)
    case True
    with Cons.prems(2) f have l: "all_loop f xs s1 = Inr (b, s')" by simp
    have "R s1 s'"
    proof (rule Cons.IH [OF _ l])
      fix y t c t' assume "y \<in> set xs" "f y t = Inr (c, t')"
      then show "R t t'" using Cons.prems(1) [of y t c t'] by simp
    qed
    with r1 show ?thesis by (rule trans)
  next
    case False
    with Cons.prems(2) f have "s' = s1" by simp
    with r1 show ?thesis by simp
  qed
qed


section \<open>From the verdict to DeepEqual\<close>

lemma DeepEqual_verdict:
  "map_sum id fst (DeepEqual fm h n (Some (p1, t)) (Some (p2, t))) =
   map_sum id fst (verdict h n Map.empty (Val t p1 False False False) (Val t p2 False False False))"
proof -
  let ?r = "deepValueEqual fm h n fresh_state (Val t p1 False False False) (Val t p2 False False False)"
  have "erase ?r = verdict h n Map.empty (Val t p1 False False False) (Val t p2 False False False)"
    using deepValueEqual_erase [of fm h n fresh_state] by simp
  then have "verdict h n Map.empty (Val t p1 False False False) (Val t p2 False False False) = erase ?r"
    by simp
  then show ?thesis
    by (cases ?r) (auto simp: DeepEqual_def)
qed



section \<open>Evaluating the comparator\<close>

lemma replicate_numeral: "replicate (numeral k) x = x # replicate (pred_numeral k) x"
  by (simp add: numeral_eq_Suc)

lemmas eval_defs =
  DeepEqual_def deepValueEqual_body_def kind_switch_def case_Array_def case_Slice_def
  case_Interface_def case_Ptr_def case_Struct_def case_Map_def case_Func_def case_default_def
  hard_def canonical_def Let_def index_step_def field_step_def key_step_def index_pairs_def
  MapKeys_def MapIndex_def Index_array_def Index_slice_def Field_def Elem_ptr_def
  Elem_iface_def w_write_prefix upt_rec replicate_numeral go_equal_def fmt_parts_def


section \<open>Growth of the visited map\<close>

lemma grows_refl: "grows V V"
  by (simp add: grows_def)

lemma grows_trans: "grows A B \<Longrightarrow> grows B C \<Longrightarrow> grows A C"
  unfolding grows_def
proof
  fix k
  assume ab: "\<forall>k. B k = A k \<or> (a1 k < a2 k \<and> B k = Some True)"
    and bc: "\<forall>k. C k = B k \<or> (a1 k < a2 k \<and> C k = Some True)"
  from ab have "B k = A k \<or> (a1 k < a2 k \<and> B k = Some True)" ..
  moreover from bc have "C k = B k \<or> (a1 k < a2 k \<and> C k = Some True)" ..
  ultimately show "C k = A k \<or> (a1 k < a2 k \<and> C k = Some True)" by auto
qed

lemma canonical_less:
  "x \<noteq> y \<Longrightarrow> fst (canonical x y) < snd (canonical x y)"
  by (simp add: canonical_def)

lemma grows_insert:
  assumes "UnsafeAddr v1 \<noteq> UnsafeAddr v2"
  shows "grows V (V(visit_key v1 v2 \<mapsto> True))"
proof -
  have "a1 (visit_key v1 v2) < a2 (visit_key v1 v2)"
    using canonical_less [OF assms] by (auto simp: visit_key_def split: prod.splits)
  then show ?thesis by (simp add: grows_def)
qed

lemma run_parts_grows:
  assumes rec: "\<And>V v1 v2 b V'. rec V v1 v2 = Inr (b, V') \<Longrightarrow> grows V V'"
    and run: "run_parts rec ps V = Inr (b, V')"
  shows "grows V V'"
proof (cases ps)
  case (Leaf x)
  with run show ?thesis by (simp add: run_parts_def grows_refl)
next
  case (Stuck e)
  with run show ?thesis by (simp add: run_parts_def)
next
  case (Node cs)
  with run have l: "all_loop (part_step rec) cs V = Inr (b, V')" by (simp add: run_parts_def)
  show ?thesis
  proof (rule all_loop_rel [where R = grows, OF grows_refl grows_trans _ l])
    fix x s b s' assume "part_step rec x s = Inr (b, s')"
    then show "grows s s'" using rec by (auto simp: part_step_def split: option.splits)
  qed
qed

lemma run_switch_Inr:
  "run_switch rec prt h V v1 v2 = Inr r \<Longrightarrow> run_parts rec (parts h v1 v2) V = Inr r"
  by (simp add: run_switch_def split: if_splits)

lemma verdict_grows: "verdict h n V v1 v2 = Inr (b, V') \<Longrightarrow> grows V V'"
proof (induction n arbitrary: V v1 v2 b V')
  case 0
  then show ?case by simp
next
  case (Suc n)
  have rp: "grows W W'" if r: "run_parts (verdict h n) ps W = Inr (c, W')" for ps W c W'
  proof (rule run_parts_grows [where rec = "verdict h n", OF _ r])
    fix X x1 x2 d X' assume "verdict h n X x1 x2 = Inr (d, X')"
    then show "grows X X'" by (rule Suc.IH)
  qed
  from Suc.prems have b: "verdict_body (verdict h n) (fmt_returns h n) h V v1 v2 = Inr (b, V')"
    by simp
  show ?case
  proof (cases "IsValid v1 \<and> IsValid v2 \<and> Type v1 = Type v2")
    case False
    with b show ?thesis by (auto simp: verdict_body_def grows_refl split: if_splits)
  next
    case ok: True
    show ?thesis
    proof (cases "guarded v1 v2")
      case False
      with b ok have "run_parts (verdict h n) (parts h v1 v2) V = Inr (b, V')"
        by (simp add: verdict_body_def run_switch_Inr)
      then show ?thesis by (rule rp)
    next
      case g: True
      show ?thesis
      proof (cases "UnsafeAddr v1 = UnsafeAddr v2 \<or> V (visit_key v1 v2) = Some True")
        case True
        with b ok g show ?thesis by (auto simp: verdict_body_def grows_refl split: if_splits)
      next
        case False
        with b ok g have "run_parts (verdict h n) (parts h v1 v2)
                            (V(visit_key v1 v2 \<mapsto> True)) = Inr (b, V')"
          by (simp add: verdict_body_def run_switch_Inr)
        then have "grows (V(visit_key v1 v2 \<mapsto> True)) V'" by (rule rp)
        moreover from False have "grows V (V(visit_key v1 v2 \<mapsto> True))"
          by (simp add: grows_insert)
        ultimately show ?thesis by (blast intro: grows_trans)
      qed
    qed
  qed
qed

lemma grows_canonical: "grows V V' \<Longrightarrow> canonical_keys V \<Longrightarrow> canonical_keys V'"
  unfolding grows_def canonical_keys_def
proof
  fix k
  assume g: "\<forall>k. V' k = V k \<or> (a1 k < a2 k \<and> V' k = Some True)"
    and c: "\<forall>k\<in>dom V. a1 k < a2 k" and k: "k \<in> dom V'"
  from g have "V' k = V k \<or> (a1 k < a2 k \<and> V' k = Some True)" ..
  with c k show "a1 k < a2 k" by (auto simp: dom_def)
qed

lemma grows_dom: "grows V V' \<Longrightarrow> dom V \<subseteq> dom V'"
  unfolding grows_def
proof
  fix k
  assume g: "\<forall>k. V' k = V k \<or> (a1 k < a2 k \<and> V' k = Some True)" and k: "k \<in> dom V"
  from g have "V' k = V k \<or> (a1 k < a2 k \<and> V' k = Some True)" ..
  with k show "k \<in> dom V'" by (auto simp: dom_def)
qed


section \<open>A larger budget does not change a result\<close>











section \<open>Simulations bound the outcome\<close>

lemma allowed_simps [simp]:
  "allowed E L (Inl e) = (e = OutOfFuel \<or> e \<in> E)" "allowed E L (Inr (b, V)) = L b"
  by (simp_all add: allowed_def)





section \<open>Termination\<close>






lemma grows_seen: "grows V V' \<Longrightarrow> seen V \<subseteq> seen V'"
  unfolding grows_def seen_def
proof
  fix k
  assume g: "\<forall>k. V' k = V k \<or> (a1 k < a2 k \<and> V' k = Some True)" and k: "k \<in> {k. V k = Some True}"
  from g have "V' k = V k \<or> (a1 k < a2 k \<and> V' k = Some True)" ..
  with k show "k \<in> {k. V' k = Some True}" by auto
qed

















section \<open>Outcomes of DeepEqual from verdicts\<close>


lemma DeepEqual_OutOfFuel:
  "DeepEqual fm h n (Some (p1, t)) (Some (p2, t)) = Inl e \<longleftrightarrow>
   verdict h n Map.empty (Val t p1 False False False) (Val t p2 False False False) = Inl e"
  using DeepEqual_verdict [of fm h n p1 t p2]
  by (cases "DeepEqual fm h n (Some (p1, t)) (Some (p2, t))";
      cases "verdict h n Map.empty (Val t p1 False False False) (Val t p2 False False False)") auto



section \<open>Inputs of different types\<close>

text \<open>
  C8.  Two non-nil inputs of different types: \<^verbatim>\<open>DeepEqual\<close> returns false with an
  empty trace.  The result does not depend on memory or on the recursion budget (it
  holds with no budget at all), so the comparator is not entered.
\<close>

theorem DeepEqual_type_mismatch:
  assumes "t1 \<noteq> t2"
  shows "DeepEqual fm h n (Some (p1, t1)) (Some (p2, t2)) = Inr (False, [])"
  using assms by (simp add: DeepEqual_def)

theorem DeepEqual_type_mismatch_witness:
  "tInt \<noteq> tString \<and>
   DeepEqual fmt_stub Map.empty 0 (Some (1, tInt)) (Some (2, tString)) = Inr (False, [])"
proof -
  have ne: "tInt \<noteq> tString" by (simp add: tInt_def tString_def)
  from DeepEqual_type_mismatch [OF ne] ne show ?thesis by blast
qed


section \<open>Nil slice against empty slice\<close>

text \<open>
  C5.  For every slice type, \<^verbatim>\<open>DeepEqual\<close> of a nil slice and a non-nil slice of
  length 0 is false, in either order of the arguments; the trace says that one of the
  slices is nil.  One call of the comparator suffices.
\<close>

theorem nil_slice_differs_from_empty_slice:
  assumes "rtype_Kind t = Slice"
    and "h (p1, t) = Some (SliceD 0 [])"
    and "h (p2, t) = Some (SliceD d [])"
    and "d \<noteq> 0"
  shows "DeepEqual fm h (Suc n) (Some (p1, t)) (Some (p2, t)) =
           Inr (False,
             ''Comparing slices of type: '' @ rtype_String t @ newline @
             ''  '' @ fmt_sharp_v fm h (Val t p1 False False False) @ '' != '' @
               fmt_sharp_v fm h (Val t p2 False False False) @ newline @
             ''  One of the slices is nil, so not equal'' @ newline)
       \<and> DeepEqual fm h (Suc n) (Some (p2, t)) (Some (p1, t)) =
           Inr (False,
             ''Comparing slices of type: '' @ rtype_String t @ newline @
             ''  '' @ fmt_sharp_v fm h (Val t p2 False False False) @ '' != '' @
               fmt_sharp_v fm h (Val t p1 False False False) @ newline @
             ''  One of the slices is nil, so not equal'' @ newline)"
  using assms
  by (simp add: DeepEqual_def deepValueEqual_body_def kind_switch_def case_Slice_def hard_def
      Let_def w_write_prefix printValue_no_parts fmt_parts_def)

theorem nil_slice_differs_from_empty_slice_witness:
  "rtype_Kind tSliceInt = Slice \<and>
   mem_slices (16, tSliceInt) = Some (SliceD 0 []) \<and>
   mem_slices (40, tSliceInt) = Some (SliceD 4096 []) \<and>
   (4096 :: nat) \<noteq> 0 \<and>
   DeepEqual fmt_stub mem_slices (Suc 0) (Some (16, tSliceInt)) (Some (40, tSliceInt)) =
     Inr (False,
       ''Comparing slices of type: []int'' @ newline @ ''  _ != _'' @ newline @
       ''  One of the slices is nil, so not equal'' @ newline) \<and>
   DeepEqual fmt_stub mem_slices (Suc 0) (Some (40, tSliceInt)) (Some (16, tSliceInt)) =
     Inr (False,
       ''Comparing slices of type: []int'' @ newline @ ''  _ != _'' @ newline @
       ''  One of the slices is nil, so not equal'' @ newline)"
proof -
  have k: "rtype_Kind tSliceInt = Slice" by (simp add: tSliceInt_def)
  have m1: "mem_slices (16, tSliceInt) = Some (SliceD 0 [])" by (simp add: mem_slices_def)
  have m2: "mem_slices (40, tSliceInt) = Some (SliceD 4096 [])" by (simp add: mem_slices_def)
  have d: "(4096 :: nat) \<noteq> 0" by simp
  from nil_slice_differs_from_empty_slice [OF k m1 m2 d, of fmt_stub 0] k m1 m2
  show ?thesis by (simp add: fmt_stub_def tSliceInt_def)
qed


section \<open>The same value on both sides\<close>

text \<open>
  C1, as stated, fails: an array passed as both arguments of \<^verbatim>\<open>DeepEqual\<close> is not
  addressable, so the comparator takes no short cut and compares it element by element;
  for \<^verbatim>\<open>[1]func(){f}\<close> with \<^verbatim>\<open>f\<close> not nil the verdict is even false.
\<close>

theorem same_array_by_value_counterexample:
  "DeepEqual fmt_stub mem_array_func (Suc (Suc 0)) (Some (48, tArrayFunc))
     (Some (48, tArrayFunc)) =
     Inr (False,
       ''Comparing arrays of type: [1]func()'' @ newline @
       ''    Not both nil functions, so not equal'' @ newline)"
proof -
  have m: "mem_array_func (48, tArrayFunc) = Some (ArrayD [(48, tFunc)])"
    "mem_array_func (48, tFunc) = Some (FuncD 8192)"
    by (simp_all add: mem_array_func_def tArrayFunc_def tFunc_def)
  have k: "rtype_Kind tArrayFunc = Array" "rtype_Kind tFunc = Func"
    "rtype_String tArrayFunc = ''[1]func()''"
    by (simp_all add: tArrayFunc_def tFunc_def)
  show ?thesis
    by (simp add: m k eval_defs)
qed

lemma DeepEqual_deferred:
  "(case deferred decDepth r of Inl e \<Rightarrow> Inl e | Inr (b, s) \<Rightarrow> Inr (b, w s)) =
   (case r of Inl e \<Rightarrow> Inl e | Inr (b, s) \<Rightarrow> Inr (b, w s))"
  by (cases r) auto

text \<open>
  C1, amended.  A slice or a map passed as both arguments is found equal by its
  pointer, and the same pointer passed as both arguments to an array, slice, map or
  struct is found equal by the address of its target; the trace is the line of the
  case and the line of the short cut.  In the comparator itself, any two addressable
  values of one type and a hard kind at the same address are found equal at once,
  with no change to the visited map.  The budget of calls given is the number of calls
  made, so no part of the value is compared.  An array or a struct passed by value as
  both arguments is not addressable and takes no short cut: the outcome of
  \<^verbatim>\<open>DeepEqual\<close> is the outcome of the loop over its elements or fields, run after
  the line of the case is written.
\<close>

theorem identity_short_circuit:
  "(rtype_Kind t = Slice \<longrightarrow> h (p, t) = Some (SliceD d es) \<longrightarrow>
      DeepEqual fm h (Suc 0) (Some (p, t)) (Some (p, t)) =
        Inr (True, ''Comparing slices of type: '' @ rtype_String t @ newline @
                   ''  Pointers equal, so equal'' @ newline))
 \<and> (rtype_Kind t = Map \<longrightarrow> h (p, t) = Some (MapD d ks) \<longrightarrow>
      DeepEqual fm h (Suc 0) (Some (p, t)) (Some (p, t)) =
        Inr (True, ''Comparing map of type: '' @ rtype_String t @ newline @
                   ''  Same pointer, so equal'' @ newline))
 \<and> (rtype_Kind t = Ptr \<longrightarrow> h (p, t) = Some (PtrD (q, u)) \<longrightarrow> q \<noteq> 0 \<longrightarrow> hard (rtype_Kind u) \<longrightarrow>
      DeepEqual fm h (Suc (Suc 0)) (Some (p, t)) (Some (p, t)) =
        Inr (True, ''Comparing pointers of type: '' @ rtype_String t @ newline @
                   ''    Same address, so equal'' @ newline))
 \<and> (IsValid v1 \<longrightarrow> IsValid v2 \<longrightarrow> Type v1 = Type v2 \<longrightarrow> CanAddr v1 \<longrightarrow> CanAddr v2 \<longrightarrow>
      hard (Kind v1) \<longrightarrow> UnsafeAddr v1 = UnsafeAddr v2 \<longrightarrow>
      deepValueEqual fm h (Suc 0) s v1 v2 =
        Inr (True, decDepth (println (incDepth s) ''  Same address, so equal'')))
 \<and> (rtype_Kind t = Array \<longrightarrow> h (p, t) = Some (ArrayD ls) \<longrightarrow>
      DeepEqual fm h (Suc n) (Some (p, t)) (Some (p, t)) =
        (case all_loop
                (index_step (deepValueEqual fm h n) Index_array
                   (Val t p False False False) (Val t p False False False))
                (index_pairs ls ls)
                (println (incDepth fresh_state)
                   (''Comparing arrays of type: '' @ rtype_String t)) of
           Inl e \<Rightarrow> Inl e
         | Inr (b, s') \<Rightarrow> Inr (b, w s')))
 \<and> (rtype_Kind t = Struct \<longrightarrow> h (p, t) = Some (StructD ls) \<longrightarrow>
      DeepEqual fm h (Suc n) (Some (p, t)) (Some (p, t)) =
        (case all_loop
                (field_step (deepValueEqual fm h n)
                   (Val t p False False False) (Val t p False False False) ls ls)
                [0..<length (rtype_Fields t)]
                (println (incDepth fresh_state)
                   (''Comparing structs of type: '' @ rtype_String t)) of
           Inl e \<Rightarrow> Inl e
         | Inr (b, s') \<Rightarrow> Inr (b, w s')))"
proof (intro conjI impI)
  assume "rtype_Kind t = Slice" "h (p, t) = Some (SliceD d es)"
  then show "DeepEqual fm h (Suc 0) (Some (p, t)) (Some (p, t)) =
        Inr (True, ''Comparing slices of type: '' @ rtype_String t @ newline @
                   ''  Pointers equal, so equal'' @ newline)"
    by (simp add: DeepEqual_def deepValueEqual_body_def kind_switch_def case_Slice_def
        hard_def Let_def w_write_prefix)
next
  assume "rtype_Kind t = Map" "h (p, t) = Some (MapD d ks)"
  then show "DeepEqual fm h (Suc 0) (Some (p, t)) (Some (p, t)) =
        Inr (True, ''Comparing map of type: '' @ rtype_String t @ newline @
                   ''  Same pointer, so equal'' @ newline)"
    by (simp add: DeepEqual_def deepValueEqual_body_def kind_switch_def case_Map_def
        hard_def Let_def w_write_prefix)
next
  assume "rtype_Kind t = Ptr" "h (p, t) = Some (PtrD (q, u))" "q \<noteq> 0" "hard (rtype_Kind u)"
  then show "DeepEqual fm h (Suc (Suc 0)) (Some (p, t)) (Some (p, t)) =
        Inr (True, ''Comparing pointers of type: '' @ rtype_String t @ newline @
                   ''    Same address, so equal'' @ newline)"
    by (simp add: DeepEqual_def deepValueEqual_body_def kind_switch_def case_Ptr_def
        hard_def Let_def w_write_prefix Elem_ptr_def canonical_def)
next
  assume "IsValid v1" "IsValid v2" "Type v1 = Type v2" "CanAddr v1" "CanAddr v2"
    "hard (Kind v1)" "UnsafeAddr v1 = UnsafeAddr v2"
  then show "deepValueEqual fm h (Suc 0) s v1 v2 =
        Inr (True, decDepth (println (incDepth s) ''  Same address, so equal''))"
    by (simp add: deepValueEqual_body_def canonical_def)
next
  assume "rtype_Kind t = Array" "h (p, t) = Some (ArrayD ls)"
  then show "DeepEqual fm h (Suc n) (Some (p, t)) (Some (p, t)) =
        (case all_loop
                (index_step (deepValueEqual fm h n) Index_array
                   (Val t p False False False) (Val t p False False False))
                (index_pairs ls ls)
                (println (incDepth fresh_state)
                   (''Comparing arrays of type: '' @ rtype_String t)) of
           Inl e \<Rightarrow> Inl e
         | Inr (b, s') \<Rightarrow> Inr (b, w s'))"
    by (simp add: DeepEqual_def deepValueEqual_body_def kind_switch_def case_Array_def
        Let_def DeepEqual_deferred)
next
  assume "rtype_Kind t = Struct" "h (p, t) = Some (StructD ls)"
  then show "DeepEqual fm h (Suc n) (Some (p, t)) (Some (p, t)) =
        (case all_loop
                (field_step (deepValueEqual fm h n)
                   (Val t p False False False) (Val t p False False False) ls ls)
                [0..<length (rtype_Fields t)]
                (println (incDepth fresh_state)
                   (''Comparing structs of type: '' @ rtype_String t)) of
           Inl e \<Rightarrow> Inl e
         | Inr (b, s') \<Rightarrow> Inr (b, w s'))"
    by (simp add: DeepEqual_def deepValueEqual_body_def kind_switch_def case_Struct_def
        Let_def DeepEqual_deferred)
qed

theorem identity_short_circuit_witness:
  "DeepEqual fmt_stub mem_T (Suc 0) (Some (80, tSliceInt)) (Some (80, tSliceInt)) =
     Inr (True, ''Comparing slices of type: []int'' @ newline @
                ''  Pointers equal, so equal'' @ newline)
 \<and> DeepEqual fmt_stub mem_T (Suc 0) (Some (88, tMapStringInt)) (Some (88, tMapStringInt)) =
     Inr (True, ''Comparing map of type: map[string]int'' @ newline @
                ''  Same pointer, so equal'' @ newline)
 \<and> DeepEqual fmt_stub mem_T (Suc (Suc 0)) (Some (96, tPtrT)) (Some (96, tPtrT)) =
     Inr (True, ''Comparing pointers of type: *main.T'' @ newline @
                ''    Same address, so equal'' @ newline)
 \<and> deepValueEqual fmt_stub mem_T (Suc 0) fresh_state
      (Val tT 64 True False False) (Val tT 64 True False False) =
     Inr (True, decDepth (println (incDepth fresh_state) ''  Same address, so equal''))
 \<and> DeepEqual fmt_stub mem_array_func (Suc (Suc 0)) (Some (48, tArrayFunc))
      (Some (48, tArrayFunc)) =
     (case all_loop
             (index_step (deepValueEqual fmt_stub mem_array_func (Suc 0)) Index_array
                (Val tArrayFunc 48 False False False) (Val tArrayFunc 48 False False False))
             (index_pairs [(48, tFunc)] [(48, tFunc)])
             (println (incDepth fresh_state) ''Comparing arrays of type: [1]func()'') of
        Inl e \<Rightarrow> Inl e
      | Inr (b, s') \<Rightarrow> Inr (b, w s'))
 \<and> DeepEqual fmt_stub mem_T (Suc (Suc 0)) (Some (64, tT)) (Some (64, tT)) =
     (case all_loop
             (field_step (deepValueEqual fmt_stub mem_T (Suc 0))
                (Val tT 64 False False False) (Val tT 64 False False False)
                [(64, tInt)] [(64, tInt)])
             [0..<length (rtype_Fields tT)]
             (println (incDepth fresh_state) ''Comparing structs of type: main.T'') of
        Inl e \<Rightarrow> Inl e
      | Inr (b, s') \<Rightarrow> Inr (b, w s'))"
proof -
  have m1: "mem_T (80, tSliceInt) = Some (SliceD 4096 [(4096, tInt), (4104, tInt)])"
    by (simp add: mem_T_def tT_def tInt_def tSliceInt_def tMapStringInt_def tPtrT_def)
  have m2: "mem_T (88, tMapStringInt) = Some (MapD 12288 [(StringV ''a'', (12296, tInt))])"
    by (simp add: mem_T_def tT_def tInt_def tSliceInt_def tMapStringInt_def tPtrT_def)
  have m3: "mem_T (96, tPtrT) = Some (PtrD (64, tT))"
    by (simp add: mem_T_def tT_def tInt_def tSliceInt_def tMapStringInt_def tPtrT_def)
  have k: "rtype_Kind tSliceInt = Slice" "rtype_Kind tMapStringInt = Map"
    "rtype_Kind tPtrT = Ptr" "hard (rtype_Kind tT)" "(64 :: nat) \<noteq> 0"
    by (simp_all add: tSliceInt_def tMapStringInt_def tPtrT_def tT_def hard_def)
  have s: "rtype_String tSliceInt = ''[]int''" "rtype_String tMapStringInt = ''map[string]int''"
    "rtype_String tPtrT = ''*main.T''"
    by (simp_all add: tSliceInt_def tMapStringInt_def tPtrT_def)
  note a = identity_short_circuit [where t = tSliceInt and h = mem_T and p = 80 and d = 4096
      and es = "[(4096, tInt), (4104, tInt)]" and fm = fmt_stub]
  note b = identity_short_circuit [where t = tMapStringInt and h = mem_T and p = 88
      and d = 12288 and ks = "[(StringV ''a'', (12296, tInt))]" and fm = fmt_stub]
  note c = identity_short_circuit [where t = tPtrT and h = mem_T and p = 96 and q = 64
      and u = tT and fm = fmt_stub]
  note d = identity_short_circuit [where h = mem_T and fm = fmt_stub and s = fresh_state
      and ?v1.0 = "Val tT 64 True False False" and ?v2.0 = "Val tT 64 True False False"]
  from a m1 k have A: "DeepEqual fmt_stub mem_T (Suc 0) (Some (80, tSliceInt)) (Some (80, tSliceInt)) =
     Inr (True, ''Comparing slices of type: []int'' @ newline @
                ''  Pointers equal, so equal'' @ newline)"
    by (simp add: s)
  from b m2 k have B: "DeepEqual fmt_stub mem_T (Suc 0) (Some (88, tMapStringInt)) (Some (88, tMapStringInt)) =
     Inr (True, ''Comparing map of type: map[string]int'' @ newline @
                ''  Same pointer, so equal'' @ newline)"
    by (simp add: s)
  from c m3 k have C: "DeepEqual fmt_stub mem_T (Suc (Suc 0)) (Some (96, tPtrT)) (Some (96, tPtrT)) =
     Inr (True, ''Comparing pointers of type: *main.T'' @ newline @
                ''    Same address, so equal'' @ newline)"
    by (simp add: s)
  from d k have D: "deepValueEqual fmt_stub mem_T (Suc 0) fresh_state
      (Val tT 64 True False False) (Val tT 64 True False False) =
     Inr (True, decDepth (println (incDepth fresh_state) ''  Same address, so equal''))"
    by simp
  have m4: "mem_array_func (48, tArrayFunc) = Some (ArrayD [(48, tFunc)])"
    by (simp add: mem_array_func_def tArrayFunc_def tFunc_def)
  have m5: "mem_T (64, tT) = Some (StructD [(64, tInt)])"
    by (simp add: mem_T_def tT_def tInt_def tSliceInt_def tMapStringInt_def tPtrT_def)
  have k': "rtype_Kind tArrayFunc = Array" "rtype_Kind tT = Struct"
    "rtype_String tArrayFunc = ''[1]func()''" "rtype_String tT = ''main.T''"
    by (simp_all add: tArrayFunc_def tT_def)
  note e = identity_short_circuit [where t = tArrayFunc and h = mem_array_func and p = 48
      and ls = "[(48, tFunc)]" and fm = fmt_stub and n = "Suc 0"]
  note f = identity_short_circuit [where t = tT and h = mem_T and p = 64
      and ls = "[(64, tInt)]" and fm = fmt_stub and n = "Suc 0"]
  from e m4 k' have E: "DeepEqual fmt_stub mem_array_func (Suc (Suc 0)) (Some (48, tArrayFunc))
      (Some (48, tArrayFunc)) =
     (case all_loop
             (index_step (deepValueEqual fmt_stub mem_array_func (Suc 0)) Index_array
                (Val tArrayFunc 48 False False False) (Val tArrayFunc 48 False False False))
             (index_pairs [(48, tFunc)] [(48, tFunc)])
             (println (incDepth fresh_state) ''Comparing arrays of type: [1]func()'') of
        Inl e \<Rightarrow> Inl e
      | Inr (b, s') \<Rightarrow> Inr (b, w s'))"
    by (simp del: deepValueEqual.simps)
  from f m5 k' have F: "DeepEqual fmt_stub mem_T (Suc (Suc 0)) (Some (64, tT)) (Some (64, tT)) =
     (case all_loop
             (field_step (deepValueEqual fmt_stub mem_T (Suc 0))
                (Val tT 64 False False False) (Val tT 64 False False False)
                [(64, tInt)] [(64, tInt)])
             [0..<length (rtype_Fields tT)]
             (println (incDepth fresh_state) ''Comparing structs of type: main.T'') of
        Inl e \<Rightarrow> Inl e
      | Inr (b, s') \<Rightarrow> Inr (b, w s'))"
    by (simp del: deepValueEqual.simps)
  from A B C D E F show ?thesis by blast
qed


section \<open>A scalar behind an unexported field\<close>

text \<open>
  C4.  \<^verbatim>\<open>DeepEqual(T{x: 1}, T{x: 1})\<close> for \<^verbatim>\<open>type T struct { x int }\<close>: the
  field is reached read-only, the default case calls \<^verbatim>\<open>Interface()\<close> on it, and the
  comparison panics, whatever the budget of calls beyond the two it makes.  The
  standard library's \<^verbatim>\<open>reflect.DeepEqual\<close> reads such fields without the check of
  \<^verbatim>\<open>Interface()\<close> and reports true for these two values, so the verdicts differ.
\<close>

theorem unexported_field_panics:
  "DeepEqual fm mem_T (Suc (Suc n)) (Some (64, tT)) (Some (72, tT)) = Inl PanicInterface"
proof -
  have m: "mem_T (64, tT) = Some (StructD [(64, tInt)])"
    "mem_T (72, tT) = Some (StructD [(72, tInt)])"
    by (simp_all add: mem_T_def tT_def tInt_def tSliceInt_def tMapStringInt_def tPtrT_def)
  have t: "rtype_Kind tT = Struct" "rtype_Fields tT = [\<lparr>Name = ''x'', PkgPath = ''main'', Anonymous = False\<rparr>]"
    "rtype_Kind tInt = Kind.Int"
    by (simp_all add: tT_def tInt_def)
  show ?thesis
    by (simp add: DeepEqual_def deepValueEqual_body_def kind_switch_def case_Struct_def
        case_default_def hard_def Let_def m t field_step_def Field_def)
qed


section \<open>Canonical keys of the visited map\<close>

text \<open>
  C9.  The two addresses of a key are ordered the same way whichever argument comes
  first, the smaller address first.  A call of the comparator that returns leaves
  every entry of the visited map in place, unchanged or set to true, and adds only keys
  whose first address is smaller than the second, with the value true; so no key is
  ever removed, the keys stay in this order if they were, and they are when the
  comparison starts from the fresh state of \<^verbatim>\<open>DeepEqual\<close>.
\<close>

theorem visited_canonical_and_growing:
  "canonical x y = canonical y x \<and> fst (canonical x y) \<le> snd (canonical x y)
 \<and> (deepValueEqual fm h n s v1 v2 = Inr (b, s') \<longrightarrow>
      dom (visited s) \<subseteq> dom (visited s')
    \<and> (\<forall>k. visited s' k = visited s k \<or> (a1 k < a2 k \<and> visited s' k = Some True))
    \<and> ((\<forall>k\<in>dom (visited s). a1 k < a2 k) \<longrightarrow> (\<forall>k\<in>dom (visited s'). a1 k < a2 k)))
 \<and> (deepValueEqual fm h n fresh_state v1 v2 = Inr (b, s') \<longrightarrow>
      (\<forall>k\<in>dom (visited s'). a1 k < a2 k \<and> visited s' k = Some True))"
proof -
  have c: "canonical x y = canonical y x \<and> fst (canonical x y) \<le> snd (canonical x y)"
    by (simp add: canonical_def)
  have g: "grows (visited t) (visited t')"
    if "deepValueEqual fm h n t v1 v2 = Inr (b, t')" for t t'
  proof -
    from that have "verdict h n (visited t) v1 v2 = Inr (b, visited t')"
      using deepValueEqual_erase [of fm h n t v1 v2] by simp
    then show ?thesis by (rule verdict_grows)
  qed
  have 1: "dom (visited s) \<subseteq> dom (visited s')
    \<and> (\<forall>k. visited s' k = visited s k \<or> (a1 k < a2 k \<and> visited s' k = Some True))
    \<and> ((\<forall>k\<in>dom (visited s). a1 k < a2 k) \<longrightarrow> (\<forall>k\<in>dom (visited s'). a1 k < a2 k))"
    if r: "deepValueEqual fm h n s v1 v2 = Inr (b, s')"
    using g [OF r] grows_canonical [OF g [OF r]] grows_dom [OF g [OF r]]
    by (simp add: grows_def canonical_keys_def)
  have 2: "\<forall>k\<in>dom (visited s'). a1 k < a2 k \<and> visited s' k = Some True"
    if r: "deepValueEqual fm h n fresh_state v1 v2 = Inr (b, s')"
  proof
    fix k assume k: "k \<in> dom (visited s')"
    from g [OF r] have "visited s' k = visited fresh_state k
        \<or> (a1 k < a2 k \<and> visited s' k = Some True)"
      by (simp add: grows_def)
    with k show "a1 k < a2 k \<and> visited s' k = Some True" by (auto simp: dom_def)
  qed
  from c 1 2 show ?thesis by blast
qed


lemma mem_nodes_simps:
  "mem_nodes (256, tNode) = Some (StructD [(256, tInt), (264, tPtrNode)])"
  "mem_nodes (256, tInt) = Some (Scalar (IntV 1))"
  "mem_nodes (264, tPtrNode) = Some (PtrD (256, tNode))"
  "mem_nodes (512, tNode) = Some (StructD [(512, tInt), (520, tPtrNode)])"
  "mem_nodes (512, tInt) = Some (Scalar (IntV 1))"
  "mem_nodes (520, tPtrNode) = Some (PtrD (512, tNode))"
  "mem_nodes (768, tNode) = Some (StructD [(768, tInt), (776, tPtrNode)])"
  "mem_nodes (768, tInt) = Some (Scalar (IntV 1))"
  "mem_nodes (776, tPtrNode) = Some (PtrD (1024, tNode))"
  "mem_nodes (1024, tNode) = Some (StructD [(1024, tInt), (1032, tPtrNode)])"
  "mem_nodes (1024, tInt) = Some (Scalar (IntV 1))"
  "mem_nodes (1032, tPtrNode) = Some (PtrD (768, tNode))"
  "mem_nodes (128, tPtrNode) = Some (PtrD (256, tNode))"
  "mem_nodes (136, tPtrNode) = Some (PtrD (512, tNode))"
  "mem_nodes (144, tPtrNode) = Some (PtrD (768, tNode))"
  by (simp_all add: mem_nodes_def tNode_def tInt_def tPtrNode_def)

lemma node_types:
  "rtype_Kind tNode = Struct" "rtype_Kind tPtrNode = Ptr" "rtype_Kind tInt = Kind.Int"
  "rtype_Fields tNode = [\<lparr>Name = ''Val'', PkgPath = [], Anonymous = False\<rparr>, \<lparr>Name = ''Next'', PkgPath = [], Anonymous = False\<rparr>]"
  "rtype_String tNode = ''main.Node''" "rtype_String tPtrNode = ''*main.Node''"
  by (simp_all add: tNode_def tInt_def tPtrNode_def)

theorem visited_canonical_and_growing_witness:
  "\<exists>s'. deepValueEqual fmt_stub mem_nodes (Suc (Suc (Suc (Suc 0)))) fresh_state
            (Val tPtrNode 136 False False False) (Val tPtrNode 128 False False False) = Inr (True, s')
      \<and> visited s' \<lparr>a1 = 256, a2 = 512, vtyp = tNode\<rparr> = Some True
      \<and> a1 \<lparr>a1 = 256, a2 = 512, vtyp = tNode\<rparr> < a2 \<lparr>a1 = 256, a2 = 512, vtyp = tNode\<rparr>
      \<and> canonical 512 256 = canonical 256 512"
proof -
  let ?k = "\<lparr>a1 = 256, a2 = 512, vtyp = tNode\<rparr>"
  have "\<exists>s'. deepValueEqual fmt_stub mem_nodes (Suc (Suc (Suc (Suc 0)))) fresh_state
            (Val tPtrNode 136 False False False) (Val tPtrNode 128 False False False) = Inr (True, s')
      \<and> visited s' ?k = Some True"
    by (simp add: mem_nodes_simps node_types eval_defs)
  then obtain s' where run: "deepValueEqual fmt_stub mem_nodes (Suc (Suc (Suc (Suc 0)))) fresh_state
            (Val tPtrNode 136 False False False) (Val tPtrNode 128 False False False) = Inr (True, s')"
    and k: "visited s' ?k = Some True" by blast
  from k have d: "?k \<in> dom (visited s')" by (rule domI)
  from visited_canonical_and_growing [of 512 256 fmt_stub mem_nodes "Suc (Suc (Suc (Suc 0)))"
      fresh_state "Val tPtrNode 136 False False False" "Val tPtrNode 128 False False False" True s'] run d
  have "canonical 512 256 = canonical 256 512 \<and> a1 ?k < a2 ?k" by blast
  with run k show ?thesis by blast
qed


section \<open>Every call writes a line\<close>


lemma wrote_printf_newline: "wrote s (printf s (t @ newline))"
  by (simp add: wrote_def w_write_prefix)
























section \<open>Order in maps and arrays\<close>












section \<open>Inputs on which the comparison does not return\<close>

lemma mem_map_cycle_simps:
  "mem_map_cycle (9500, tMapIface) = Some (MapD 95000 [(StringV ''self'', (95008, tIface))])"
  "mem_map_cycle (95008, tIface) = Some (IfaceD (Some (95016, tMapIface)))"
  "mem_map_cycle (95016, tMapIface) = Some (MapD 95000 [(StringV ''self'', (95008, tIface))])"
  "mem_map_cycle (9600, tMapIface) = Some (MapD 96000 [(StringV ''self'', (96008, tIface))])"
  "mem_map_cycle (96008, tIface) = Some (IfaceD (Some (96016, tMapIface)))"
  "mem_map_cycle (96016, tMapIface) = Some (MapD 96000 [(StringV ''self'', (96008, tIface))])"
  by (simp_all add: mem_map_cycle_def tMapIface_def tIface_def)

lemma map_cycle_types:
  "rtype_Kind tMapIface = Map" "rtype_Kind tIface = Interface"
  by (simp_all add: tMapIface_def tIface_def)

lemmas verdict_eval =
  verdict_body_def run_switch_def printed_def parts_def run_parts_def part_step_def
  guarded_def hard_def MapKeys_def MapIndex_def Index_array_def Index_slice_def Field_def
  Elem_ptr_def Elem_iface_def index_pairs_def upt_rec go_equal_def

lemma map_cycle_loops:
  "verdict mem_map_cycle n V (Val tIface 95008 False False False) (Val tIface 96008 False False False) =
     Inl OutOfFuel
 \<and> verdict mem_map_cycle n V (Val tMapIface 95016 False False False)
      (Val tMapIface 96016 False False False) = Inl OutOfFuel"
proof (induction n arbitrary: V)
  case 0
  show ?case by simp
next
  case (Suc n)
  have i: "verdict mem_map_cycle (Suc n) V (Val tIface 95008 False False False)
             (Val tIface 96008 False False False) =
           verdict mem_map_cycle n V (Val tMapIface 95016 False False False)
             (Val tMapIface 96016 False False False)"
    by (simp add: verdict_eval mem_map_cycle_simps map_cycle_types split: sum.splits)
  have m: "verdict mem_map_cycle (Suc n) V (Val tMapIface 95016 False False False)
             (Val tMapIface 96016 False False False) =
           verdict mem_map_cycle n V (Val tIface 95008 False False False)
             (Val tIface 96008 False False False)"
    by (simp add: verdict_eval mem_map_cycle_simps map_cycle_types split: sum.splits)
  from i m Suc.IH show ?case by simp
qed

lemma mem_self_slice_simps:
  "mem_self_slice (8000, tSelf) = Some (SliceD 80000 [(80000, tSelf)])"
  "mem_self_slice (80000, tSelf) = Some (SliceD 80000 [(80000, tSelf)])"
  "mem_self_slice (8100, tSelf) = Some (SliceD 0 [])"
  by (simp_all add: mem_self_slice_def tSelf_def)

lemma self_slice_not_formatted:
  "\<not> printValue mem_self_slice k outer (8000, tSelf) \<and>
   \<not> printValue mem_self_slice k outer (80000, tSelf)"
proof (induction k arbitrary: outer)
  case 0
  show ?case by (simp add: fmt_parts_def mem_self_slice_simps)
next
  case (Suc k)
  from Suc [of False] show ?case by (simp add: fmt_parts_def mem_self_slice_simps)
qed

text \<open>
  C2.  The comparison does not always return a verdict and a trace.  Two maps that each
  hold themselves in an interface are compared without end: the values met are never
  addressable, so the visited map is not consulted, and no budget of nested calls
  suffices; a Go program ends with a stack overflow.  And for \<^verbatim>\<open>type T []T\<close>, the nil
  slice compared with a slice that holds itself makes package \<^verbatim>\<open>fmt\<close> format the
  latter for the trace, which does not return either.
\<close>

theorem cyclic_inputs_never_return:
  "(\<forall>fm n. DeepEqual fm mem_map_cycle n (Some (9500, tMapIface)) (Some (9600, tMapIface)) =
            Inl OutOfFuel)
 \<and> (\<forall>fm n. DeepEqual fm mem_self_slice n (Some (8100, tSelf)) (Some (8000, tSelf)) =
            Inl OutOfFuel)"
proof (intro conjI allI)
  fix fm n
  have "verdict mem_map_cycle n Map.empty (Val tMapIface 9500 False False False)
          (Val tMapIface 9600 False False False) = Inl OutOfFuel"
  proof (cases n)
    case 0
    then show ?thesis by simp
  next
    case (Suc m)
    have "verdict mem_map_cycle (Suc m) Map.empty (Val tMapIface 9500 False False False)
            (Val tMapIface 9600 False False False) =
          verdict mem_map_cycle m Map.empty (Val tIface 95008 False False False)
            (Val tIface 96008 False False False)"
      by (simp add: verdict_eval mem_map_cycle_simps map_cycle_types split: sum.splits)
    with Suc map_cycle_loops [of m Map.empty] show ?thesis by simp
  qed
  then show "DeepEqual fm mem_map_cycle n (Some (9500, tMapIface)) (Some (9600, tMapIface)) =
             Inl OutOfFuel"
    by (simp add: DeepEqual_OutOfFuel)
next
  fix fm n
  have k: "rtype_Kind tSelf = Slice" by (simp add: tSelf_def)
  show "DeepEqual fm mem_self_slice n (Some (8100, tSelf)) (Some (8000, tSelf)) = Inl OutOfFuel"
  proof (cases n)
    case 0
    then show ?thesis by (simp add: DeepEqual_def)
  next
    case (Suc m)
    with self_slice_not_formatted [of m True] show ?thesis
      by (simp add: DeepEqual_def deepValueEqual_body_def kind_switch_def case_Slice_def
          hard_def Let_def k mem_self_slice_simps del: printValue.simps)
  qed
qed


section \<open>Cyclic values\<close>

lemma mem_record_cycle_simps:
  "mem_record_cycle (9000, tN) = Some (StructD [(9000, tMapN)])"
  "mem_record_cycle (9000, tMapN) = Some (MapD 90000 [(StringV ''k'', (90008, tN))])"
  "mem_record_cycle (90008, tN) = Some (StructD [(90008, tMapN)])"
  "mem_record_cycle (90008, tMapN) = Some (MapD 90000 [(StringV ''k'', (90008, tN))])"
  "mem_record_cycle (9100, tN) = Some (StructD [(9100, tMapN)])"
  "mem_record_cycle (9100, tMapN) = Some (MapD 91000 [(StringV ''k'', (91008, tN))])"
  "mem_record_cycle (91008, tN) = Some (StructD [(91008, tMapN)])"
  "mem_record_cycle (91008, tMapN) = Some (MapD 91000 [(StringV ''k'', (91008, tN))])"
  by (simp_all add: mem_record_cycle_def tN_def tMapN_def)

lemma record_cycle_types:
  "rtype_Kind tN = Struct" "rtype_Kind tMapN = Map"
  "rtype_Fields tN = [\<lparr>Name = ''M'', PkgPath = [], Anonymous = False\<rparr>]"
  by (simp_all add: tN_def tMapN_def)

lemma record_cycle_loops:
  "verdict mem_record_cycle n V (Val tN 90008 False False False) (Val tN 91008 False False False) =
     Inl OutOfFuel
 \<and> verdict mem_record_cycle n V (Val tMapN 90008 False False False) (Val tMapN 91008 False False False) =
     Inl OutOfFuel"
proof (induction n arbitrary: V)
  case 0
  show ?case by simp
next
  case (Suc n)
  have r: "verdict mem_record_cycle (Suc n) V (Val tN 90008 False False False)
             (Val tN 91008 False False False) =
           verdict mem_record_cycle n V (Val tMapN 90008 False False False)
             (Val tMapN 91008 False False False)"
    by (simp add: verdict_eval mem_record_cycle_simps record_cycle_types split: sum.splits)
  have m: "verdict mem_record_cycle (Suc n) V (Val tMapN 90008 False False False)
             (Val tMapN 91008 False False False) =
           verdict mem_record_cycle n V (Val tN 90008 False False False)
             (Val tN 91008 False False False)"
    by (simp add: verdict_eval mem_record_cycle_simps record_cycle_types split: sum.splits)
  from r m Suc.IH show ?case by simp
qed

text \<open>
  C3.  Cyclic inputs are not always compared to the end: two records built alike, each
  holding a map that holds a copy of the record, are compared without end, under every
  budget of nested calls.  The record is passed by value and the map is read out of
  it, so neither is addressable, no visit record is ever made, and the cycle is
  never cut.
\<close>

theorem record_cycle_never_returns:
  "\<forall>fm n. DeepEqual fm mem_record_cycle n (Some (9000, tN)) (Some (9100, tN)) = Inl OutOfFuel"
proof (intro allI)
  fix fm n
  have m: "verdict mem_record_cycle k Map.empty (Val tMapN 9000 False False False)
             (Val tMapN 9100 False False False) = Inl OutOfFuel" for k
  proof (cases k)
    case 0
    then show ?thesis by simp
  next
    case (Suc j)
    have "verdict mem_record_cycle (Suc j) Map.empty (Val tMapN 9000 False False False)
            (Val tMapN 9100 False False False) =
          verdict mem_record_cycle j Map.empty (Val tN 90008 False False False)
            (Val tN 91008 False False False)"
      by (simp add: verdict_eval mem_record_cycle_simps record_cycle_types split: sum.splits)
    with Suc record_cycle_loops [of j Map.empty] show ?thesis by simp
  qed
  have "verdict mem_record_cycle n Map.empty (Val tN 9000 False False False)
          (Val tN 9100 False False False) = Inl OutOfFuel"
  proof (cases n)
    case 0
    then show ?thesis by simp
  next
    case (Suc k)
    have "verdict mem_record_cycle (Suc k) Map.empty (Val tN 9000 False False False)
            (Val tN 9100 False False False) =
          verdict mem_record_cycle k Map.empty (Val tMapN 9000 False False False)
            (Val tMapN 9100 False False False)"
      by (simp add: verdict_eval mem_record_cycle_simps record_cycle_types split: sum.splits)
    with Suc m [of k] show ?thesis by simp
  qed
  then show "DeepEqual fm mem_record_cycle n (Some (9000, tN)) (Some (9100, tN)) =
             Inl OutOfFuel"
    by (simp add: DeepEqual_OutOfFuel)
qed


section \<open>Symmetry of the verdict\<close>











lemma run_parts_seen:
  assumes "run_parts (verdict h n) ps W = Inr (b, W')"
  shows "seen W \<subseteq> seen W'"
proof -
  from assms have "grows W W'"
  proof (rule run_parts_grows [where rec = "verdict h n", rotated])
    fix X x1 x2 d X' assume "verdict h n X x1 x2 = Inr (d, X')"
    then show "grows X X'" by (rule verdict_grows)
  qed
  then show ?thesis by (rule grows_seen)
qed













































section \<open>The two orders of the arguments\<close>














end
